theory Spec2Isabelle
  imports Main "HOL-Library.Word"
begin

section \<open>JavaScript strings\<close>

text \<open>
  A JavaScript string is a sequence of UTF-16 code units. The server's text processing
  (\<open>trim\<close>, \<open>split\<close>, \<open>parseInt\<close>, the two regular expressions of the plan parser)
  works on code units, so a string is a list of 16-bit words. \<open>js\<close> embeds an ASCII
  literal.
\<close>

type_synonym jsstring = "16 word list"

definition js :: "string \<Rightarrow> jsstring" where
  "js s = map of_char s"

text \<open>
  \<open>WhiteSpace\<close> and \<open>LineTerminator\<close> of ECMAScript: the code units removed by
  \<open>String.prototype.trim\<close>, skipped by \<open>parseInt\<close> and matched by \<open>\s\<close>.
\<close>

definition isWhiteSpace :: "16 word \<Rightarrow> bool" where
  "isWhiteSpace c \<longleftrightarrow>
     c = 0x09 \<or> c = 0x0A \<or> c = 0x0B \<or> c = 0x0C \<or> c = 0x0D \<or> c = 0x20 \<or> c = 0xA0 \<or>
     c = 0x1680 \<or> (0x2000 \<le> c \<and> c \<le> 0x200A) \<or> c = 0x2028 \<or> c = 0x2029 \<or>
     c = 0x202F \<or> c = 0x205F \<or> c = 0x3000 \<or> c = 0xFEFF"

text \<open>\<open>\d\<close> of a regular expression without the unicode flag: \<open>[0-9]\<close>.\<close>

definition isDigit :: "16 word \<Rightarrow> bool" where
  "isDigit c \<longleftrightarrow> 0x30 \<le> c \<and> c \<le> 0x39"

definition trimStart :: "jsstring \<Rightarrow> jsstring" where
  "trimStart s = dropWhile isWhiteSpace s"

definition trim :: "jsstring \<Rightarrow> jsstring" where
  "trim s = rev (dropWhile isWhiteSpace (rev (dropWhile isWhiteSpace s)))"

text \<open>\<open>s.split('\n')\<close>: the pieces between line feeds; never an empty array.\<close>

fun split_lines :: "jsstring \<Rightarrow> jsstring list" where
  "split_lines [] = [[]]"
| "split_lines (c # cs) =
     (if c = 0x0A then [] # split_lines cs
      else (case split_lines cs of l # ls \<Rightarrow> (c # l) # ls | [] \<Rightarrow> [[c]]))"

text \<open>Decimal rendering of a non-negative integer, as a template literal prints it.\<close>

fun dec :: "nat \<Rightarrow> jsstring" where
  "dec n = (if n < 10 then [0x30 + of_nat n] else dec (n div 10) @ [0x30 + of_nat (n mod 10)])"

section \<open>parseInt\<close>

text \<open>
  \<open>parseInt(string)\<close> with no radix, after ECMAScript: skip leading white space, read an
  optional sign, switch to radix 16 after a \<open>0x\<close> or \<open>0X\<close> prefix, take the longest
  prefix of digits of the radix; no digit gives NaN (\<open>None\<close>). The result is kept as a
  mathematical integer: the rounding to a double changes neither an integer of at most
  53 bits nor the comparisons with 8 and 20.
\<close>

definition digitValue :: "16 word \<Rightarrow> nat option" where
  "digitValue c =
     (if 0x30 \<le> c \<and> c \<le> 0x39 then Some (unat c - 0x30)
      else if 0x61 \<le> c \<and> c \<le> 0x7A then Some (unat c - 0x61 + 10)
      else if 0x41 \<le> c \<and> c \<le> 0x5A then Some (unat c - 0x41 + 10)
      else None)"

definition isRadixDigit :: "nat \<Rightarrow> 16 word \<Rightarrow> bool" where
  "isRadixDigit R c = (case digitValue c of None \<Rightarrow> False | Some v \<Rightarrow> v < R)"

definition mathInt :: "nat \<Rightarrow> jsstring \<Rightarrow> nat" where
  "mathInt R Z = foldl (\<lambda>acc c. acc * R + (case digitValue c of None \<Rightarrow> 0 | Some v \<Rightarrow> v)) 0 Z"

definition parseInt :: "jsstring \<Rightarrow> int option" where
  "parseInt string =
     (let S = trimStart string;
          sign = (if S \<noteq> [] \<and> hd S = 0x2D then - 1 else (1::int));
          S1 = (if S \<noteq> [] \<and> (hd S = 0x2B \<or> hd S = 0x2D) then tl S else S);
          hex = (2 \<le> length S1 \<and> (take 2 S1 = [0x30, 0x78] \<or> take 2 S1 = [0x30, 0x58]));
          R = (if hex then 16 else 10);
          S2 = (if hex then drop 2 S1 else S1);
          Z = takeWhile (isRadixDigit R) S2
      in if Z = [] then None else Some (sign * int (mathInt R Z)))"

section \<open>Errors and the model service\<close>

text \<open>
  What the server can throw: a failed call of the generative model (or of reading its
  reply), the errors of the file system, the \<open>TypeError\<close> of destructuring \<open>null\<close>,
  and the \<open>Error\<close> the request handler raises itself when there is no reference sketch.
\<close>

datatype error =
    ApiError | TypeError | NoReferenceSketch
  | ENOENT | ENOTDIR | EISDIR | EEXIST | ENOSPC | EACCES | EIO

section \<open>Step count estimator\<close>

text \<open>
  \<open>determineOptimalSteps\<close>: the argument is the outcome of the model call together with
  \<open>response.text()\<close> (\<open>Inl\<close> when either throws, which the function catches). The result
  is 12 or an integer from 8 to 20, so it is a natural number.
\<close>

definition determineOptimalSteps :: "error + jsstring \<Rightarrow> nat" where
  "determineOptimalSteps call =
     (case call of
        Inl e \<Rightarrow> 12
      | Inr stepsText \<Rightarrow>
          (case parseInt (trim stepsText) of
             None \<Rightarrow> 12
           | Some stepsNumber \<Rightarrow>
               if stepsNumber < 8 \<or> stepsNumber > 20 then 12 else nat stepsNumber))"

section \<open>Plan generator\<close>

text \<open>\<open>trimmedLine.match(/^\d+\./)\<close>: one or more digits, then a period.\<close>

definition isStepLine :: "jsstring \<Rightarrow> bool" where
  "isStepLine l \<longleftrightarrow>
     takeWhile isDigit l \<noteq> [] \<and>
     (case dropWhile isDigit l of [] \<Rightarrow> False | c # cs \<Rightarrow> c = 0x2E)"

text \<open>\<open>trimmedLine.replace(/^\d+\.\s*/, '')\<close>: a line that does not match is unchanged.\<close>

definition removeNumeral :: "jsstring \<Rightarrow> jsstring" where
  "removeNumeral l =
     (if isStepLine l then dropWhile isWhiteSpace (tl (dropWhile isDigit l)) else l)"

definition filler :: jsstring where
  "filler = js ''Continue adding details to your drawing.''"

text \<open>The \<open>for (const line of lines)\<close> loop, \<open>planSteps\<close> being the array it pushes to.\<close>

fun parseLines :: "jsstring list \<Rightarrow> jsstring list \<Rightarrow> jsstring list" where
  "parseLines planSteps [] = planSteps"
| "parseLines planSteps (line # lines) =
     (let trimmedLine = trim line in
      if isStepLine trimmedLine then
        (let stepText = trim (removeNumeral trimmedLine) in
         if stepText \<noteq> [] then parseLines (planSteps @ [stepText]) lines
         else parseLines planSteps lines)
      else parseLines planSteps lines)"

text \<open>\<open>while (planSteps.length < totalSteps) planSteps.push(...)\<close>.\<close>

function padPlan :: "jsstring list \<Rightarrow> nat \<Rightarrow> jsstring list" where
  "padPlan planSteps totalSteps =
     (if length planSteps < totalSteps then padPlan (planSteps @ [filler]) totalSteps
      else planSteps)"
  by pat_completeness auto
termination
  by (relation "measure (\<lambda>(planSteps, totalSteps). totalSteps - length planSteps)") auto

text \<open>The \<open>for (let i = 0; i < totalSteps; i++)\<close> loop of the \<open>catch\<close> branch.\<close>

function genericLoop :: "nat \<Rightarrow> nat \<Rightarrow> jsstring list \<Rightarrow> jsstring list" where
  "genericLoop i totalSteps genericSteps =
     (if i < totalSteps then
        genericLoop (i + 1) totalSteps
          (genericSteps @ [js ''Work on part '' @ dec (i + 1) @ js '' of your drawing.''])
      else genericSteps)"
  by pat_completeness auto
termination
  by (relation "measure (\<lambda>(i, totalSteps, genericSteps). totalSteps - i)") auto

text \<open>
  \<open>generateTutorialPlan\<close>: the first argument is the outcome of the model call together
  with \<open>response.text()\<close>; \<open>totalSteps\<close> is the estimator's result, a count.
\<close>

definition generateTutorialPlan :: "error + jsstring \<Rightarrow> nat \<Rightarrow> jsstring list" where
  "generateTutorialPlan call totalSteps =
     (case call of
        Inr planText \<Rightarrow>
          take totalSteps (padPlan (parseLines [] (split_lines planText)) totalSteps)
      | Inl e \<Rightarrow> genericLoop 0 totalSteps [])"

text \<open>
  The entries the parsing loop keeps: of the trimmed lines that start with digits and a
  period, the text after the numeral, trimmed, when it is not empty.
\<close>

definition planEntries :: "jsstring \<Rightarrow> jsstring list" where
  "planEntries txt =
     filter (\<lambda>s. s \<noteq> [])
       (map (\<lambda>l. trim (removeNumeral l)) (filter isStepLine (map trim (split_lines txt))))"

section \<open>File system and artifact store\<close>

text \<open>
  The part of the file system the server touches: the directories that exist, the files
  with the bytes they hold, and the free space. Whatever else makes the operating system
  refuse to create or write a path (permissions, a read-only or failing device, ...) is
  the field \<open>fault\<close>: the error raised for that path, if any. A refused operation
  leaves the state as it was.
\<close>

type_synonym buffer = "8 word list"

record filesystem =
  dirs :: "jsstring set"
  files :: "jsstring \<rightharpoonup> buffer"
  free :: nat
  fault :: "jsstring \<Rightarrow> error option"

text \<open>
  \<open>path.join\<close> and \<open>path.dirname\<close> for the paths the server builds, a directory name
  and a file name: \<open>path.join\<close> also normalises its result, which changes nothing when
  the file name has no slash and ends in an extension.
\<close>

definition path_join :: "jsstring \<Rightarrow> jsstring \<Rightarrow> jsstring" where
  "path_join d f = d @ [0x2F] @ f"

definition path_dirname :: "jsstring \<Rightarrow> jsstring" where
  "path_dirname p =
     (if 0x2F \<in> set p then rev (tl (dropWhile (\<lambda>c. c \<noteq> 0x2F) (rev p))) else js ''.'')"

definition existsSync :: "filesystem \<Rightarrow> jsstring \<Rightarrow> bool" where
  "existsSync fs p \<longleftrightarrow> p \<in> dirs fs \<or> files fs p \<noteq> None"

text \<open>
  \<open>fs.mkdirSync(d)\<close> and \<open>fs.mkdirSync(d, {recursive: true})\<close>: only the second
  accepts a directory that exists already. The directories above \<open>d\<close>, which the
  second also creates, are not recorded: \<open>writeFileSync\<close> looks at the directory of
  the file only.
\<close>

definition mkdirSync :: "filesystem \<Rightarrow> jsstring \<Rightarrow> bool \<Rightarrow> error + filesystem" where
  "mkdirSync fs d recursive =
     (case fault fs d of
        Some e \<Rightarrow> Inl e
      | None \<Rightarrow>
          if files fs d \<noteq> None then Inl EEXIST
          else if d \<in> dirs fs then (if recursive then Inr fs else Inl EEXIST)
          else Inr (fs\<lparr>dirs := insert d (dirs fs)\<rparr>))"

text \<open>
  \<open>fs.writeFileSync(p, buffer)\<close>: the directory of the file must exist, the path must
  not be a directory, and the bytes must fit.
\<close>

definition writeFileSync :: "filesystem \<Rightarrow> jsstring \<Rightarrow> buffer \<Rightarrow> error + filesystem" where
  "writeFileSync fs p buffer =
     (case fault fs p of
        Some e \<Rightarrow> Inl e
      | None \<Rightarrow>
          if path_dirname p \<notin> dirs fs then
            (if files fs (path_dirname p) \<noteq> None then Inl ENOTDIR else Inl ENOENT)
          else if p \<in> dirs fs then Inl EISDIR
          else if free fs < length buffer then Inl ENOSPC
          else Inr (fs\<lparr>files := (files fs)(p \<mapsto> buffer), free := free fs - length buffer\<rparr>))"

text \<open>
  The server's start: \<open>['uploads', 'generated'].forEach(...)\<close>. An error of \<open>mkdirSync\<close>
  is not caught there (\<open>Inl\<close>: the server does not start).
\<close>

definition ensureDir :: "filesystem \<Rightarrow> jsstring \<Rightarrow> error + filesystem" where
  "ensureDir fs d = (if \<not> existsSync fs d then mkdirSync fs d False else Inr fs)"

definition startup :: "filesystem \<Rightarrow> error + filesystem" where
  "startup fs =
     (case ensureDir fs (js ''uploads'') of
        Inl e \<Rightarrow> Inl e
      | Inr fs1 \<Rightarrow> ensureDir fs1 (js ''generated''))"

definition extensionOf :: "jsstring \<Rightarrow> jsstring" where
  "extensionOf mimeType =
     (if mimeType = js ''image/png'' then js ''.png''
      else if mimeType = js ''image/jpeg'' \<or> mimeType = js ''image/jpg'' then js ''.jpg''
      else if mimeType = js ''image/gif'' then js ''.gif''
      else js ''.png'')"

text \<open>
  \<open>saveGeneratedImage\<close> of the server. \<open>Buffer.from(imageData, 'base64')\<close> is a
  function of the platform and is the parameter \<open>decode\<close>. An error of the write is
  logged and thrown again (\<open>Inl\<close>).
\<close>

definition saveGeneratedImage ::
  "(jsstring \<Rightarrow> buffer) \<Rightarrow> filesystem \<Rightarrow> jsstring \<Rightarrow> jsstring \<Rightarrow> jsstring \<Rightarrow>
   error + jsstring \<times> filesystem" where
  "saveGeneratedImage decode fs imageData mimeType filename =
     (let extension = extensionOf mimeType;
          filePath = path_join (js ''generated'') (filename @ extension);
          imageBuffer = decode imageData
      in case writeFileSync fs filePath imageBuffer of
           Inl e \<Rightarrow> Inl e
         | Inr fs' \<Rightarrow> Inr (js ''/generated/'' @ filename @ extension, fs'))"

text \<open>
  \<open>saveGeneratedImage\<close> of the stand-alone demonstration module, which creates the
  directory of the file when nothing of that name exists and returns the file path.
\<close>

definition saveGeneratedImage_demo ::
  "(jsstring \<Rightarrow> buffer) \<Rightarrow> filesystem \<Rightarrow> jsstring \<Rightarrow> jsstring \<Rightarrow> jsstring \<Rightarrow>
   error + jsstring \<times> filesystem" where
  "saveGeneratedImage_demo decode fs imageData mimeType filename =
     (let extension = extensionOf mimeType;
          filePath = path_join (js ''generated_images'') (filename @ extension);
          dir = path_dirname filePath
      in case (if \<not> existsSync fs dir then mkdirSync fs dir True else Inr fs) of
           Inl e \<Rightarrow> Inl e
         | Inr fs1 \<Rightarrow>
             (let imageBuffer = decode imageData
              in case writeFileSync fs1 filePath imageBuffer of
                   Inl e \<Rightarrow> Inl e
                 | Inr fs' \<Rightarrow> Inr (filePath, fs')))"

section \<open>Replies of the generative model\<close>

text \<open>
  The reply of \<open>generateContent\<close> as the server inspects it: each of \<open>candidates\<close>,
  \<open>content\<close>, \<open>parts\<close> and \<open>inlineData\<close> may be missing (\<open>None\<close>).
\<close>

datatype inlineData = InlineData (data: jsstring) (mimeType: jsstring)

datatype part = Part (partText: "jsstring option") (inlineData: "inlineData option")

datatype contentObj = Content (parts: "part list option")

datatype candidate = Candidate (candidateContent: "contentObj option")

datatype response = Response (candidates: "candidate list option")

text \<open>
  What is sent to the image model for a step: the prompt, a template filled with the
  step's description, its number and the number of steps, and inline images. The
  reference image is passed on as the sketch synthesizer returned it, \<open>null\<close> included.
\<close>

datatype contentItem =
    Prompt jsstring nat nat
  | Inline "inlineData option"

text \<open>
  One request's view of the outside: the replies of the five kinds of model call (\<open>Inl\<close>
  when the call throws), the image call of a step depending on the step number and on
  what is sent, the clock read when a file is named (0 for the reference sketch), and
  the platform's base64 decoder.
\<close>

record world =
  sketchResponse :: "error + response"
  visionText :: "error + jsstring"
  stepsText :: "error + jsstring"
  planText :: "error + jsstring"
  stepResponse :: "nat \<Rightarrow> contentItem list \<Rightarrow> error + response"
  now :: "nat \<Rightarrow> nat"
  fromBase64 :: "jsstring \<Rightarrow> buffer"

text \<open>
  The state a request changes: the file system, and the requests sent to the image model
  for the steps, in order, with the step number (the server logs each of them).
\<close>

record state =
  fs :: filesystem
  sent :: "(nat \<times> contentItem list) list"

section \<open>Step image generator\<close>

definition stepContent ::
  "jsstring \<Rightarrow> inlineData option \<Rightarrow> inlineData list \<Rightarrow> nat \<Rightarrow> nat \<Rightarrow> contentItem list" where
  "stepContent stepDescription referenceImageData previousStepsImagesData stepNumber totalSteps =
     [Prompt stepDescription stepNumber totalSteps, Inline referenceImageData] @
     (if length previousStepsImagesData > 0
      then [Inline (Some (previousStepsImagesData ! (length previousStepsImagesData - 1)))]
      else [])"

text \<open>
  The loop over the parts of the first candidate: the first part with inline data is
  saved and returned; when the save throws, the error is logged, the loop is left and
  the function returns \<open>{imageUrl: null, imageData: null}\<close>.
\<close>

fun stepParts ::
  "world \<Rightarrow> filesystem \<Rightarrow> nat \<Rightarrow> part list \<Rightarrow>
   (jsstring option \<times> inlineData option) \<times> filesystem" where
  "stepParts w f stepNumber [] = ((None, None), f)"
| "stepParts w f stepNumber (p # ps) =
     (case inlineData p of
        None \<Rightarrow> stepParts w f stepNumber ps
      | Some d \<Rightarrow>
          (let filename = js ''step_'' @ dec stepNumber @ js ''_'' @ dec (now w stepNumber) in
           case saveGeneratedImage (fromBase64 w) f (data d) (mimeType d) filename of
             Inr (imageUrl, f') \<Rightarrow> ((Some imageUrl, Some d), f')
           | Inl saveError \<Rightarrow> ((None, None), f)))"

text \<open>
  \<open>generateStepImage\<close>: \<open>Some (imageUrl, imageData)\<close> is the object it returns, \<open>None\<close>
  the \<open>null\<close> its outer \<open>catch\<close> returns.
\<close>

definition generateStepImage ::
  "world \<Rightarrow> state \<Rightarrow> jsstring \<Rightarrow> inlineData option \<Rightarrow> inlineData list \<Rightarrow> nat \<Rightarrow> nat \<Rightarrow>
   (jsstring option \<times> inlineData option) option \<times> state" where
  "generateStepImage w st stepDescription referenceImageData previousStepsImagesData
       stepNumber totalSteps =
     (let content = stepContent stepDescription referenceImageData previousStepsImagesData
                      stepNumber totalSteps;
          st1 = st\<lparr>sent := sent st @ [(stepNumber, content)]\<rparr>
      in case stepResponse w stepNumber content of
           Inl e \<Rightarrow> (None, st1)
         | Inr imageResponse \<Rightarrow>
             (case candidates imageResponse of
                None \<Rightarrow> (Some (None, None), st1)
              | Some cs \<Rightarrow>
                  (case cs of
                     [] \<Rightarrow> (Some (None, None), st1)
                   | candidate # rest \<Rightarrow>
                       (case candidateContent candidate of
                          None \<Rightarrow> (Some (None, None), st1)
                        | Some c \<Rightarrow>
                            (case parts c of
                               None \<Rightarrow> (Some (None, None), st1)
                             | Some ps \<Rightarrow>
                                 (case stepParts w (fs st1) stepNumber ps of
                                    (r, f') \<Rightarrow> (Some r, st1\<lparr>fs := f'\<rparr>)))))))"

section \<open>Sketch synthesizer, vision analyzer, narration stub\<close>

text \<open>
  \<open>generatePencilSketchFromImage\<close>: the reply is read without guards inside one \<open>try\<close>,
  so a missing field, a failed call and a failed save all end in its \<open>catch\<close>, which
  returns \<open>{imageUrl: null, imageData: null}\<close>.
\<close>

fun sketchParts ::
  "world \<Rightarrow> filesystem \<Rightarrow> part list \<Rightarrow> (jsstring option \<times> inlineData option) \<times> filesystem" where
  "sketchParts w f [] = ((None, None), f)"
| "sketchParts w f (p # ps) =
     (case inlineData p of
        None \<Rightarrow> sketchParts w f ps
      | Some d \<Rightarrow>
          (let filename = js ''reference_sketch_'' @ dec (now w 0) in
           case saveGeneratedImage (fromBase64 w) f (data d) (mimeType d) filename of
             Inr (imageUrl, f') \<Rightarrow> ((Some imageUrl, Some d), f')
           | Inl e \<Rightarrow> ((None, None), f)))"

definition generatePencilSketchFromImage ::
  "world \<Rightarrow> filesystem \<Rightarrow> (jsstring option \<times> inlineData option) \<times> filesystem" where
  "generatePencilSketchFromImage w f =
     (case sketchResponse w of
        Inl e \<Rightarrow> ((None, None), f)
      | Inr response \<Rightarrow>
          (case candidates response of
             None \<Rightarrow> ((None, None), f)
           | Some cs \<Rightarrow>
               (case cs of
                  [] \<Rightarrow> ((None, None), f)
                | candidate # rest \<Rightarrow>
                    (case candidateContent candidate of
                       None \<Rightarrow> ((None, None), f)
                     | Some c \<Rightarrow>
                         (case parts c of
                            None \<Rightarrow> ((None, None), f)
                          | Some ps \<Rightarrow> sketchParts w f ps)))))"

text \<open>\<open>analyzeImage\<close> logs an error and throws it again.\<close>

definition analyzeImage :: "world \<Rightarrow> error + jsstring" where
  "analyzeImage w = (case visionText w of Inl e \<Rightarrow> Inl e | Inr imageDescription \<Rightarrow> Inr imageDescription)"

text \<open>\<open>generateAudioNarration\<close> logs a preview of the text and returns a constant.\<close>

definition generateAudioNarration :: "jsstring \<Rightarrow> error + jsstring" where
  "generateAudioNarration narrated = Inr (js ''audio_placeholder.mp3'')"

section \<open>Tutorial orchestrator\<close>

record stepRecord =
  step :: nat
  description :: jsstring
  imageUrl :: "jsstring option"
  audio :: "jsstring option"

record sketchRecord =
  sketchImageUrl :: jsstring
  sketchDescription :: jsstring
  sketchAudio :: jsstring

record request =
  uploadedFile :: "jsstring option"
  difficulty :: "jsstring option"

datatype httpResponse =
    Json200 (sketchOf: sketchRecord) (stepsOf: "stepRecord list")
  | Json400 jsstring
  | Json500 error

text \<open>\<open>tutorialPlan[i] || `Work on part ${currentStepNumber} of your drawing.`\<close>\<close>

definition stepDescriptionAt :: "jsstring list \<Rightarrow> nat \<Rightarrow> jsstring" where
  "stepDescriptionAt tutorialPlan i =
     (if i < length tutorialPlan \<and> tutorialPlan ! i \<noteq> [] then tutorialPlan ! i
      else js ''Work on part '' @ dec (i + 1) @ js '' of your drawing.'')"

text \<open>
  The end of the loop body: a non-null \<open>imageData\<close> is pushed to
  \<open>previousStepsImagesData\<close>, and the oldest entry is shifted out when there are more
  than two.
\<close>

definition updateWindow :: "inlineData list \<Rightarrow> inlineData option \<Rightarrow> inlineData list" where
  "updateWindow previousStepsImagesData imageData =
     (case imageData of
        None \<Rightarrow> previousStepsImagesData
      | Some d \<Rightarrow>
          (let pushed = previousStepsImagesData @ [d]
           in if length pushed > 2 then tl pushed else pushed))"

text \<open>
  The generation loop, from the iteration with index \<open>i\<close> on. Destructuring the
  \<open>null\<close> that \<open>generateStepImage\<close> returns from its \<open>catch\<close> throws a \<open>TypeError\<close>,
  which leaves the loop for the handler's \<open>catch\<close>.
\<close>

function generationLoop ::
  "world \<Rightarrow> inlineData option \<Rightarrow> jsstring list \<Rightarrow> nat \<Rightarrow> nat \<Rightarrow> stepRecord list \<Rightarrow>
   inlineData list \<Rightarrow> state \<Rightarrow> (error + stepRecord list \<times> inlineData list) \<times> state" where
  "generationLoop w referenceSketchData tutorialPlan totalSteps i steps previousStepsImagesData st =
     (if i < totalSteps then
        (let currentStepNumber = i + 1;
             stepDescription = stepDescriptionAt tutorialPlan i
         in case generateStepImage w st stepDescription referenceSketchData
                   previousStepsImagesData currentStepNumber totalSteps of
              (None, st') \<Rightarrow> (Inl TypeError, st')
            | (Some (url, imageData), st') \<Rightarrow>
                generationLoop w referenceSketchData tutorialPlan totalSteps (i + 1)
                  (steps @ [\<lparr>step = currentStepNumber, description = stepDescription,
                             imageUrl = url, audio = None\<rparr>])
                  (updateWindow previousStepsImagesData imageData) st')
      else (Inr (steps, previousStepsImagesData), st))"
  by pat_completeness auto
termination
  by (relation "measure (\<lambda>(w, r, p, totalSteps, i, s, d, st). totalSteps - i)") auto

text \<open>
  The states at the head of the generation loop, started with empty arrays in \<open>st0\<close>:
  the index, the step records, the window, the state, and with them the \<open>imageData\<close>
  each finished iteration got back from \<open>generateStepImage\<close>.
\<close>

inductive loopState ::
  "world \<Rightarrow> inlineData option \<Rightarrow> jsstring list \<Rightarrow> nat \<Rightarrow> state \<Rightarrow>
   nat \<Rightarrow> stepRecord list \<Rightarrow> inlineData list \<Rightarrow> state \<Rightarrow> inlineData option list \<Rightarrow> bool"
  for w referenceSketchData tutorialPlan totalSteps st0 where
    loopStart: "loopState w referenceSketchData tutorialPlan totalSteps st0 0 [] [] st0 []"
  | loopNext:
      "loopState w referenceSketchData tutorialPlan totalSteps st0 i steps prev st produced \<Longrightarrow>
       i < totalSteps \<Longrightarrow>
       generateStepImage w st (stepDescriptionAt tutorialPlan i) referenceSketchData prev
         (i + 1) totalSteps = (Some (url, imageData), st') \<Longrightarrow>
       loopState w referenceSketchData tutorialPlan totalSteps st0 (i + 1)
         (steps @ [\<lparr>step = i + 1, description = stepDescriptionAt tutorialPlan i,
                    imageUrl = url, audio = None\<rparr>])
         (updateWindow prev imageData) st' (produced @ [imageData])"

text \<open>The most recent image among those produced so far, if any.\<close>

definition latestImage :: "inlineData option list \<Rightarrow> inlineData option" where
  "latestImage produced = (case filter (\<lambda>x. x \<noteq> None) produced of [] \<Rightarrow> None | xs \<Rightarrow> last xs)"

text \<open>
  The images among the \<open>imageData\<close> values of the finished iterations, in order, and
  the last two entries of a list.
\<close>

fun producedImages :: "inlineData option list \<Rightarrow> inlineData list" where
  "producedImages [] = []"
| "producedImages (None # xs) = producedImages xs"
| "producedImages (Some d # xs) = d # producedImages xs"

definition recentTwo :: "'a list \<Rightarrow> 'a list" where
  "recentTwo xs = drop (length xs - 2) xs"

text \<open>The loop that attaches the narration to every step record.\<close>

function audioLoop :: "nat \<Rightarrow> stepRecord list \<Rightarrow> error + stepRecord list" where
  "audioLoop i steps =
     (if i < length steps then
        (case generateAudioNarration (description (steps ! i)) of
           Inl e \<Rightarrow> Inl e
         | Inr a \<Rightarrow> audioLoop (i + 1) (steps[i := (steps ! i)\<lparr>audio := Some a\<rparr>]))
      else Inr steps)"
  by pat_completeness auto
termination
  by (relation "measure (\<lambda>(i, steps). length steps - i)") auto

text \<open>
  The handler of \<open>POST /api/generate-tutorial\<close>: the reply and the state it leaves.
  \<open>!referenceSketchUrl\<close> holds for \<open>null\<close> and for the empty string.
\<close>

definition generateTutorial :: "world \<Rightarrow> state \<Rightarrow> request \<Rightarrow> httpResponse \<times> state" where
  "generateTutorial w st req =
     (if uploadedFile req = None then (Json400 (js ''No image provided''), st)
      else if difficulty req = None \<or> difficulty req = Some [] then
        (Json400 (js ''Difficulty level is required''), st)
      else
        (case generatePencilSketchFromImage w (fs st) of
           ((referenceSketchUrl, referenceSketchData), f1) \<Rightarrow>
             (let st1 = st\<lparr>fs := f1\<rparr> in
              case referenceSketchUrl of
                None \<Rightarrow> (Json500 NoReferenceSketch, st1)
              | Some sketchUrl \<Rightarrow>
                  if sketchUrl = [] then (Json500 NoReferenceSketch, st1)
                  else
                    (case analyzeImage w of
                       Inl e \<Rightarrow> (Json500 e, st1)
                     | Inr imageDescription \<Rightarrow>
                         (let totalSteps = determineOptimalSteps (stepsText w);
                              tutorialPlan = generateTutorialPlan (planText w) totalSteps
                          in case generationLoop w referenceSketchData tutorialPlan totalSteps
                                    0 [] [] st1 of
                               (Inl e, st2) \<Rightarrow> (Json500 e, st2)
                             | (Inr (steps, previousStepsImagesData), st2) \<Rightarrow>
                                 (case generateAudioNarration imageDescription of
                                    Inl e \<Rightarrow> (Json500 e, st2)
                                  | Inr narration \<Rightarrow>
                                      (case audioLoop 0 steps of
                                         Inl e \<Rightarrow> (Json500 e, st2)
                                       | Inr narrated \<Rightarrow>
                                           (Json200
                                              \<lparr>sketchImageUrl = sketchUrl,
                                               sketchDescription = imageDescription,
                                               sketchAudio = narration\<rparr>
                                              narrated, st2))))))))"

section \<open>Example requests\<close>

text \<open>
  Concrete replies, disks and worlds on which the definitions are run. In \<open>gapWorld\<close>
  every step gets an image except step 2, whose reply is text only. In
  \<open>lateFailureWorld\<close> the image call of step 3 throws. In \<open>planFailureWorld\<close> the
  plan call throws. \<open>decodeBase64\<close> decodes base64 text as the platform does when the
  text is well formed: characters outside the alphabet are skipped, four characters
  give three bytes, and two or three characters at the end give one or two.
\<close>

definition sextet :: "16 word \<Rightarrow> nat option" where
  "sextet c =
     (if 0x41 \<le> c \<and> c \<le> 0x5A then Some (unat c - 0x41)
      else if 0x61 \<le> c \<and> c \<le> 0x7A then Some (unat c - 0x61 + 26)
      else if 0x30 \<le> c \<and> c \<le> 0x39 then Some (unat c - 0x30 + 52)
      else if c = 0x2B \<or> c = 0x2D then Some 62
      else if c = 0x2F \<or> c = 0x5F then Some 63
      else None)"

fun sextetBytes :: "nat list \<Rightarrow> buffer" where
  "sextetBytes (a # b # c # d # rest) =
     [of_nat (a * 4 + b div 16), of_nat ((b mod 16) * 16 + c div 4), of_nat ((c mod 4) * 64 + d)]
     @ sextetBytes rest"
| "sextetBytes [a, b, c] = [of_nat (a * 4 + b div 16), of_nat ((b mod 16) * 16 + c div 4)]"
| "sextetBytes [a, b] = [of_nat (a * 4 + b div 16)]"
| "sextetBytes rest = []"

definition decodeBase64 :: "jsstring \<Rightarrow> buffer" where
  "decodeBase64 s = sextetBytes (List.map_filter sextet s)"

definition imageReply :: "inlineData \<Rightarrow> response" where
  "imageReply d = Response (Some [Candidate (Some (Content (Some [Part None (Some d)])))])"

definition textReply :: "jsstring \<Rightarrow> response" where
  "textReply t = Response (Some [Candidate (Some (Content (Some [Part (Some t) None])))])"

definition sketchImage :: inlineData where
  "sketchImage = InlineData (js ''c2tldGNo'') (js ''image/png'')"

definition stepImage :: "nat \<Rightarrow> inlineData" where
  "stepImage n = InlineData (js ''c3RlcDA'' @ dec n) (js ''image/jpeg'')"

definition emptyDisk :: filesystem where
  "emptyDisk = \<lparr>dirs = {}, files = Map.empty, free = 1000, fault = (\<lambda>p. None)\<rparr>"

definition disk :: filesystem where
  "disk =
     \<lparr>dirs = {js ''uploads'', js ''generated''}, files = Map.empty, free = 1000,
      fault = (\<lambda>p. None)\<rparr>"

definition idle :: state where
  "idle = \<lparr>fs = disk, sent = []\<rparr>"

definition upload :: request where
  "upload = \<lparr>uploadedFile = Some (js ''uploads/1.png''), difficulty = Some (js ''beginner'')\<rparr>"

definition gapWorld :: world where
  "gapWorld =
     \<lparr>sketchResponse = Inr (imageReply sketchImage),
      visionText = Inr (js ''A cat.''),
      stepsText = Inr (js ''8''),
      planText = Inr (js ''1. Draw the head''),
      stepResponse =
        (\<lambda>n c. if n = 2 then Inr (textReply (js ''no image'')) else Inr (imageReply (stepImage n))),
      now = (\<lambda>n. 1700 + n),
      fromBase64 = decodeBase64\<rparr>"

definition lateFailureWorld :: world where
  "lateFailureWorld =
     gapWorld\<lparr>stepResponse :=
       (\<lambda>n c. if n = 3 then Inl ApiError else Inr (imageReply (stepImage n)))\<rparr>"

definition planFailureWorld :: world where
  "planFailureWorld = gapWorld\<lparr>planText := Inl ApiError\<rparr>"

text \<open>
  The reply to the request \<open>upload\<close> in \<open>gapWorld\<close>, the plan used there, the states
  after the first and the second iteration of the generation loop, and a state whose
  disk has room for the reference sketch and for no step image.
\<close>

definition gapSketch :: sketchRecord where
  "gapSketch =
     \<lparr>sketchImageUrl = js ''/generated/reference_sketch_1700.png'',
      sketchDescription = js ''A cat.'',
      sketchAudio = js ''audio_placeholder.mp3''\<rparr>"

definition gapSteps :: "stepRecord list" where
  "gapSteps =
     map (\<lambda>(n, d, u). \<lparr>step = n, description = d, imageUrl = u,
                         audio = Some (js ''audio_placeholder.mp3'')\<rparr>)
       [(1, js ''Draw the head'', Some (js ''/generated/step_1_1701.jpg'')),
        (2, filler, None),
        (3, filler, Some (js ''/generated/step_3_1703.jpg'')),
        (4, filler, Some (js ''/generated/step_4_1704.jpg'')),
        (5, filler, Some (js ''/generated/step_5_1705.jpg'')),
        (6, filler, Some (js ''/generated/step_6_1706.jpg'')),
        (7, filler, Some (js ''/generated/step_7_1707.jpg'')),
        (8, filler, Some (js ''/generated/step_8_1708.jpg''))]"

definition gapPlan :: "jsstring list" where
  "gapPlan = js ''Draw the head'' # replicate 7 filler"

definition gapState1 :: state where
  "gapState1 =
     snd (generateStepImage gapWorld idle (stepDescriptionAt gapPlan 0) (Some sketchImage) []
            (0 + 1) 8)"

definition gapState2 :: state where
  "gapState2 =
     snd (generateStepImage gapWorld gapState1 (stepDescriptionAt gapPlan (0 + 1))
            (Some sketchImage) (updateWindow [] (Some (stepImage 1))) (0 + 1 + 1) 8)"

definition lowDiskState :: state where
  "lowDiskState = \<lparr>fs = disk\<lparr>free := 8\<rparr>, sent = []\<rparr>"

text \<open>
  The disk after the reference sketch is saved, for \<open>gapWorld\<close> on the small disk and
  for \<open>planFailureWorld\<close>, and the empty disk after the server's start.
\<close>

definition lowDisk1 :: filesystem where
  "lowDisk1 = snd (generatePencilSketchFromImage gapWorld (fs lowDiskState))"

definition idle1 :: filesystem where
  "idle1 = snd (generatePencilSketchFromImage planFailureWorld (fs idle))"

definition startedDisk :: filesystem where
  "startedDisk = emptyDisk\<lparr>dirs := {js ''generated'', js ''uploads''}\<rparr>"

text \<open>
  The equations of \<open>dec\<close> and of the loops are unconditional and recursive, so they
  are unfolded by hand, one step at a time.
\<close>

declare dec.simps [simp del] padPlan.simps [simp del] genericLoop.simps [simp del]
  generationLoop.simps [simp del] audioLoop.simps [simp del]

section \<open>Properties of the step count estimator\<close>

text \<open>
  Claim C3. Whatever text the step-count model returns: when the trimmed text does not
  parse as an integer, or parses to an integer below 8 or above 20,
  \<open>determineOptimalSteps\<close> returns 12; otherwise it returns the parsed integer. The
  result always lies between 8 and 20, and a call that throws gives 12 as well.
\<close>

theorem determineOptimalSteps_policy:
  "(parseInt (trim t) = None \<longrightarrow> determineOptimalSteps (Inr t) = 12) \<and>
   (parseInt (trim t) = Some n \<and> (n < 8 \<or> 20 < n) \<longrightarrow> determineOptimalSteps (Inr t) = 12) \<and>
   (parseInt (trim t) = Some n \<and> 8 \<le> n \<and> n \<le> 20 \<longrightarrow> int (determineOptimalSteps (Inr t)) = n) \<and>
   8 \<le> determineOptimalSteps c \<and> determineOptimalSteps c \<le> 20 \<and>
   determineOptimalSteps (Inl e) = 12"
  by (auto simp: determineOptimalSteps_def split: sum.splits option.splits)

theorem determineOptimalSteps_policy_witness:
  "parseInt (trim (js ''about ten'')) = None \<and>
     determineOptimalSteps (Inr (js ''about ten'')) = 12 \<and>
   parseInt (trim (js '' 25 '')) = Some 25 \<and> determineOptimalSteps (Inr (js '' 25 '')) = 12 \<and>
   parseInt (trim (js ''7'')) = Some 7 \<and> determineOptimalSteps (Inr (js ''7'')) = 12 \<and>
   parseInt (trim (js ''16 steps'')) = Some 16 \<and>
     determineOptimalSteps (Inr (js ''16 steps'')) = 16"
proof -
  have a: "parseInt (trim (js ''about ten'')) = None" by code_simp
  have b: "parseInt (trim (js '' 25 '')) = Some 25" by code_simp
  have c: "parseInt (trim (js ''7'')) = Some 7" by code_simp
  have d: "parseInt (trim (js ''16 steps'')) = Some 16" by code_simp
  show ?thesis
    using a b c d
      determineOptimalSteps_policy [of "js ''about ten''" 0]
      determineOptimalSteps_policy [of "js '' 25 ''" 25]
      determineOptimalSteps_policy [of "js ''7''" 7]
      determineOptimalSteps_policy [of "js ''16 steps''" 16]
    by simp
qed

section \<open>Properties of the plan generator\<close>

lemma padPlan_eq:
  "padPlan planSteps totalSteps =
     planSteps @ replicate (totalSteps - length planSteps) filler"
proof (induction planSteps totalSteps rule: padPlan.induct)
  case (1 planSteps totalSteps)
  show ?case
  proof (cases "length planSteps < totalSteps")
    case True
    then have "totalSteps - length planSteps = Suc (totalSteps - Suc (length planSteps))"
      by simp
    with True 1 show ?thesis
      by (subst padPlan.simps) (simp add: replicate_app_Cons_same)
  next
    case False
    then show ?thesis by (subst padPlan.simps) simp
  qed
qed

lemma parseLines_eq:
  "parseLines planSteps lines =
     planSteps @ filter (\<lambda>s. s \<noteq> [])
       (map (\<lambda>l. trim (removeNumeral l)) (filter isStepLine (map trim lines)))"
  by (induction lines arbitrary: planSteps) (simp_all add: Let_def)

lemma genericLoop_eq:
  "genericLoop i totalSteps genericSteps =
     genericSteps @
     map (\<lambda>k. js ''Work on part '' @ dec (k + 1) @ js '' of your drawing.'') [i..<totalSteps]"
proof (induction i totalSteps genericSteps rule: genericLoop.induct)
  case (1 i totalSteps genericSteps)
  show ?case
  proof (cases "i < totalSteps")
    case True
    with 1 show ?thesis
      by (subst genericLoop.simps) (simp add: upt_conv_Cons)
  next
    case False
    then show ?thesis by (subst genericLoop.simps) simp
  qed
qed

lemma filler_nonempty: "filler \<noteq> []"
  by (simp add: filler_def js_def)

lemma planEntries_nonempty: "[] \<notin> set (planEntries txt)"
  by (simp add: planEntries_def)

lemma generateTutorialPlan_Inr:
  "generateTutorialPlan (Inr txt) totalSteps =
     take totalSteps (planEntries txt @ replicate (totalSteps - length (planEntries txt)) filler)"
  unfolding generateTutorialPlan_def padPlan_eq parseLines_eq planEntries_def by simp

lemma padded_no_empty:
  "[] \<notin> set es \<Longrightarrow> [] \<notin> set (take n (es @ replicate k filler))"
proof
  assume a: "[] \<notin> set es" and b: "[] \<in> set (take n (es @ replicate k filler))"
  from b have "[] \<in> set (es @ replicate k filler)" by (rule in_set_takeD)
  with a have "[] = filler" by (auto split: if_splits)
  with filler_nonempty show False by simp
qed

lemma generateTutorialPlan_Inr_no_empty: "[] \<notin> set (generateTutorialPlan (Inr txt) totalSteps)"
  unfolding generateTutorialPlan_Inr by (rule padded_no_empty) (rule planEntries_nonempty)

lemma generateTutorialPlan_Inr_length: "length (generateTutorialPlan (Inr txt) totalSteps) = totalSteps"
  unfolding generateTutorialPlan_Inr by simp

lemma generateTutorialPlan_Inl:
  "generateTutorialPlan (Inl e) totalSteps =
     map (\<lambda>i. js ''Work on part '' @ dec i @ js '' of your drawing.'') [1..<totalSteps + 1]"
proof -
  have "map (\<lambda>k. js ''Work on part '' @ dec (k + 1) @ js '' of your drawing.'') [0..<totalSteps]
      = map (\<lambda>i. js ''Work on part '' @ dec i @ js '' of your drawing.'') (map Suc [0..<totalSteps])"
    unfolding map_map by (rule map_cong) simp_all
  also have "map Suc [0..<totalSteps] = [1..<totalSteps + 1]"
    by (simp add: map_Suc_upt)
  finally show ?thesis
    unfolding generateTutorialPlan_def genericLoop_eq by simp
qed

lemma generic_nonempty: "js ''Work on part '' @ x \<noteq> []"
  by (simp add: js_def)

lemma generateTutorialPlan_length: "length (generateTutorialPlan r totalSteps) = totalSteps"
proof (cases r)
  case (Inl e)
  then show ?thesis unfolding Inl generateTutorialPlan_Inl by simp
next
  case (Inr t)
  then show ?thesis by (simp add: generateTutorialPlan_Inr_length)
qed

lemma generateTutorialPlan_no_empty: "[] \<notin> set (generateTutorialPlan r totalSteps)"
proof (cases r)
  case (Inl e)
  show ?thesis unfolding Inl generateTutorialPlan_Inl using generic_nonempty by (auto simp del: upt_Suc)
next
  case (Inr t)
  then show ?thesis by (simp add: generateTutorialPlan_Inr_no_empty)
qed


text \<open>
  Claim C4. For every response text and every \<open>totalSteps\<close>, the plan parser returns
  exactly \<open>totalSteps\<close> non-empty strings. It keeps, in first-seen order, the lines that,
  trimmed, start with digits and a period, with the numeral and the surrounding white
  space stripped; the kept strings are non-empty, a numbered line with nothing after the
  numeral giving no entry (\<open>planEntries\<close>). With fewer entries than \<open>totalSteps\<close> the
  tail is the filler "Continue adding details to your drawing."; with more, the result
  is the first \<open>totalSteps\<close> entries in their order.
\<close>

theorem generateTutorialPlan_parsed:
  "generateTutorialPlan (Inr txt) totalSteps =
     take totalSteps (planEntries txt @ replicate (totalSteps - length (planEntries txt)) filler) \<and>
   length (generateTutorialPlan (Inr txt) totalSteps) = totalSteps \<and>
   [] \<notin> set (generateTutorialPlan (Inr txt) totalSteps) \<and>
   (length (planEntries txt) < totalSteps \<longrightarrow>
      generateTutorialPlan (Inr txt) totalSteps =
        planEntries txt @ replicate (totalSteps - length (planEntries txt)) filler) \<and>
   (totalSteps \<le> length (planEntries txt) \<longrightarrow>
      generateTutorialPlan (Inr txt) totalSteps = take totalSteps (planEntries txt))"
proof (intro conjI impI)
  show "generateTutorialPlan (Inr txt) totalSteps =
     take totalSteps (planEntries txt @ replicate (totalSteps - length (planEntries txt)) filler)"
    by (rule generateTutorialPlan_Inr)
  show "length (generateTutorialPlan (Inr txt) totalSteps) = totalSteps"
    by (rule generateTutorialPlan_Inr_length)
  show "[] \<notin> set (generateTutorialPlan (Inr txt) totalSteps)"
    by (rule generateTutorialPlan_Inr_no_empty)
  show "generateTutorialPlan (Inr txt) totalSteps =
        planEntries txt @ replicate (totalSteps - length (planEntries txt)) filler"
    if "length (planEntries txt) < totalSteps"
    using that unfolding generateTutorialPlan_Inr by simp
  show "generateTutorialPlan (Inr txt) totalSteps = take totalSteps (planEntries txt)"
    if "totalSteps \<le> length (planEntries txt)"
    using that unfolding generateTutorialPlan_Inr by simp
qed

theorem generateTutorialPlan_parsed_witness:
  "planEntries (js ''Plan:'' @ [0x0A] @ js '' 1. Draw a circle '' @ [0x0D, 0x0A] @ js ''2.'' @
                [0x0A] @ js ''7.Add eyes'' @ [0x0A] @ js ''3 . y'')
     = [js ''Draw a circle'', js ''Add eyes''] \<and>
   generateTutorialPlan (Inr (js ''Plan:'' @ [0x0A] @ js '' 1. Draw a circle '' @ [0x0D, 0x0A] @
                js ''2.'' @ [0x0A] @ js ''7.Add eyes'' @ [0x0A] @ js ''3 . y'')) 3
     = [js ''Draw a circle'', js ''Add eyes'', js ''Continue adding details to your drawing.''] \<and>
   generateTutorialPlan (Inr (js ''Plan:'' @ [0x0A] @ js '' 1. Draw a circle '' @ [0x0D, 0x0A] @
                js ''2.'' @ [0x0A] @ js ''7.Add eyes'' @ [0x0A] @ js ''3 . y'')) 1
     = [js ''Draw a circle'']"
proof -
  let ?t = "js ''Plan:'' @ [0x0A] @ js '' 1. Draw a circle '' @ [0x0D, 0x0A] @ js ''2.'' @
                [0x0A] @ js ''7.Add eyes'' @ [0x0A] @ js ''3 . y''"
  have e: "planEntries ?t = [js ''Draw a circle'', js ''Add eyes'']" by code_simp
  have f: "filler = js ''Continue adding details to your drawing.''" by (simp add: filler_def)
  have "length (planEntries ?t) < 3" "1 \<le> length (planEntries ?t)"
    unfolding e by simp_all
  then show ?thesis
    using generateTutorialPlan_parsed [of ?t 3] generateTutorialPlan_parsed [of ?t 1]
    unfolding e f by (simp add: numeral_3_eq_3)
qed

section \<open>Properties of the step image generator and of the window\<close>

lemma producedImages_append:
  "producedImages (xs @ ys) = producedImages xs @ producedImages ys"
  by (induction xs rule: producedImages.induct) simp_all

lemma updateWindow_None: "updateWindow prev None = prev"
  by (simp add: updateWindow_def)

lemma updateWindow_recentTwo:
  "updateWindow (recentTwo xs) (Some d) = recentTwo (xs @ [d])"
proof (cases "length xs < 2")
  case True
  then show ?thesis by (simp add: updateWindow_def recentTwo_def Let_def)
next
  case False
  define k where "k = length xs - 2"
  from False have k: "k < length xs" "length xs - k = 2" "Suc (length xs) - 2 = Suc k"
    by (simp_all add: k_def)
  then have ne: "drop k xs \<noteq> []" by simp
  have "tl (drop k xs @ [d]) = drop (Suc k) xs @ [d]"
    using ne by (simp add: tl_drop drop_Suc)
  with k show ?thesis
    by (simp add: updateWindow_def recentTwo_def Let_def k_def [symmetric])
qed

lemma recentTwo_length: "length (recentTwo xs) \<le> 2"
  by (simp add: recentTwo_def)

lemma recentTwo_empty: "recentTwo xs = [] \<longleftrightarrow> xs = []"
  by (cases xs) (simp_all add: recentTwo_def)

lemma recentTwo_last: "xs \<noteq> [] \<Longrightarrow> last (recentTwo xs) = last xs"
  by (simp add: recentTwo_def)

lemma filter_produced:
  "filter (\<lambda>x. x \<noteq> None) produced = map Some (producedImages produced)"
  by (induction produced rule: producedImages.induct) simp_all

lemma latestImage_produced:
  "latestImage produced =
     (if producedImages produced = [] then None else Some (last (producedImages produced)))"
proof (cases "producedImages produced")
  case Nil
  then show ?thesis unfolding latestImage_def filter_produced by simp
next
  case (Cons d ds)
  then have "last (map Some (producedImages produced)) = Some (last (producedImages produced))"
    by (simp only: last_map list.distinct not_False_eq_True)
  with Cons show ?thesis unfolding latestImage_def filter_produced
    by (simp del: last.simps)
qed

lemma stepContent_window:
  "stepContent desc ref (recentTwo imgs) n tot =
     [Prompt desc n tot, Inline ref] @
     (if imgs = [] then [] else [Inline (Some (last imgs))])"
proof (cases "imgs = []")
  case True
  then show ?thesis by (simp add: stepContent_def recentTwo_def)
next
  case False
  then have ne: "recentTwo imgs \<noteq> []" by (simp add: recentTwo_empty)
  then have "recentTwo imgs ! (length (recentTwo imgs) - 1) = last (recentTwo imgs)"
    by (simp add: last_conv_nth)
  then have "recentTwo imgs ! (length (recentTwo imgs) - 1) = last imgs"
    using False recentTwo_last [of imgs] by simp
  with ne False show ?thesis by (simp add: stepContent_def)
qed

lemma generateStepImage_sent:
  "sent (snd (generateStepImage w st desc ref prev n tot)) =
     sent st @ [(n, stepContent desc ref prev n tot)]"
  by (simp add: generateStepImage_def Let_def
      split: sum.splits option.splits list.splits prod.splits)

lemma generateStepImage_null:
  "fst (generateStepImage w st desc ref prev n tot) = None \<longleftrightarrow>
     (\<exists>e. stepResponse w n (stepContent desc ref prev n tot) = Inl e)"
  by (simp add: generateStepImage_def Let_def
      split: sum.splits option.splits list.splits prod.splits)

lemma stepParts_both:
  "stepParts w f n ps = ((url, d), f') \<Longrightarrow> (url = None \<longleftrightarrow> d = None)"
  by (induction ps) (auto simp: Let_def split: option.splits sum.splits)

section \<open>Properties of the generation loop\<close>

lemma producedImages_snoc_None: "producedImages (xs @ [None]) = producedImages xs"
  by (simp add: producedImages_append)

lemma producedImages_snoc_Some: "producedImages (xs @ [Some d]) = producedImages xs @ [d]"
  by (simp add: producedImages_append)

lemma loopState_index:
  "loopState w ref plan tot st0 i steps prev st produced \<Longrightarrow>
     i \<le> tot \<and> length steps = i \<and> length produced = i"
  by (induction rule: loopState.induct) simp_all

lemma loopState_steps:
  "loopState w ref plan tot st0 i steps prev st produced \<Longrightarrow>
     map step steps = [1..<i + 1] \<and>
     map description steps = map (stepDescriptionAt plan) [0..<i]"
  by (induction rule: loopState.induct) simp_all

lemma loopState_window:
  "loopState w ref plan tot st0 i steps prev st produced \<Longrightarrow>
     prev = recentTwo (producedImages produced)"
proof (induction rule: loopState.induct)
  case loopStart
  show ?case by (simp add: recentTwo_def)
next
  case (loopNext i steps prev st produced url imageData st')
  show ?case
  proof (cases imageData)
    case None
    with loopNext.IH show ?thesis
      by (simp only: updateWindow_None producedImages_snoc_None)
  next
    case (Some d)
    with loopNext.IH show ?thesis
      by (simp only: updateWindow_recentTwo producedImages_snoc_Some)
  qed
qed

lemma generationLoop_done:
  "\<not> i < tot \<Longrightarrow> generationLoop w ref plan tot i steps prev st = (Inr (steps, prev), st)"
  by (subst generationLoop.simps) simp

lemma generationLoop_abort:
  "i < tot \<Longrightarrow>
   generateStepImage w st (stepDescriptionAt plan i) ref prev (i + 1) tot = (None, st1) \<Longrightarrow>
   generationLoop w ref plan tot i steps prev st = (Inl TypeError, st1)"
  by (subst generationLoop.simps) (simp add: Let_def)

lemma generationLoop_step:
  "i < tot \<Longrightarrow>
   generateStepImage w st (stepDescriptionAt plan i) ref prev (i + 1) tot
     = (Some (url, imageData), st1) \<Longrightarrow>
   generationLoop w ref plan tot i steps prev st =
     generationLoop w ref plan tot (i + 1)
       (steps @ [\<lparr>step = i + 1, description = stepDescriptionAt plan i,
                  imageUrl = url, audio = None\<rparr>])
       (updateWindow prev imageData) st1"
  by (subst generationLoop.simps) (simp add: Let_def)

lemma generationLoop_reaches:
  "loopState w ref plan tot st0 i steps prev st produced \<Longrightarrow>
   generationLoop w ref plan tot i steps prev st = (Inr (steps', prev'), st') \<Longrightarrow>
   \<exists>produced'. loopState w ref plan tot st0 tot steps' prev' st' produced'"
proof (induction "tot - i" arbitrary: i steps prev st produced)
  case 0
  from 0(2) have "i \<le> tot" by (simp add: loopState_index)
  with 0(1) have i: "i = tot" by simp
  then have "generationLoop w ref plan tot i steps prev st = (Inr (steps, prev), st)"
    by (intro generationLoop_done) simp
  with 0(3) have "steps' = steps" "prev' = prev" "st' = st" by simp_all
  with 0(2) i show ?case by blast
next
  case (Suc k)
  then have lt: "i < tot" by simp
  obtain r st1 where g: "generateStepImage w st (stepDescriptionAt plan i) ref prev (i + 1) tot = (r, st1)"
    by (cases "generateStepImage w st (stepDescriptionAt plan i) ref prev (i + 1) tot")
  show ?case
  proof (cases r)
    case None
    with g have "generateStepImage w st (stepDescriptionAt plan i) ref prev (i + 1) tot = (None, st1)"
      by simp
    from generationLoop_abort [OF lt this] Suc.prems(2) show ?thesis by simp
  next
    case (Some ud)
    obtain url imageData where ud: "ud = (url, imageData)" by (cases ud)
    let ?steps = "steps @ [\<lparr>step = i + 1, description = stepDescriptionAt plan i,
                    imageUrl = url, audio = None\<rparr>]"
    have g': "generateStepImage w st (stepDescriptionAt plan i) ref prev (i + 1) tot
        = (Some (url, imageData), st1)"
      using g Some ud by simp
    have next_state: "loopState w ref plan tot st0 (i + 1) ?steps (updateWindow prev imageData) st1
        (produced @ [imageData])"
      using Suc.prems(1) lt g' by (rule loopState.loopNext)
    have run: "generationLoop w ref plan tot (i + 1) ?steps (updateWindow prev imageData) st1
        = (Inr (steps', prev'), st')"
      using Suc.prems(2) generationLoop_step [OF lt g'] by simp
    have "k = tot - (i + 1)" using Suc.hyps(2) by simp
    from Suc.hyps(1) [OF this next_state run] show ?thesis .
  qed
qed

section \<open>Properties of the artifact store\<close>

lemma path_dirname_join: "0x2F \<notin> set f \<Longrightarrow> path_dirname (path_join d f) = d"
proof -
  assume a: "0x2F \<notin> set f"
  have "dropWhile (\<lambda>c. c \<noteq> 0x2F) (rev f @ 0x2F # rev d) =
      dropWhile (\<lambda>c. c \<noteq> 0x2F) (0x2F # rev d)"
    by (rule dropWhile_append2) (use a in auto)
  then show ?thesis
    by (simp add: path_dirname_def path_join_def)
qed

lemma extensionOf_no_slash: "0x2F \<notin> set (extensionOf m)"
  by (simp add: extensionOf_def js_def)

lemma digit_no_slash: "k < 10 \<Longrightarrow> (0x30 + of_nat k :: 16 word) \<noteq> 0x2F"
proof -
  assume "k < 10"
  then have "k = 0 \<or> k = 1 \<or> k = 2 \<or> k = 3 \<or> k = 4 \<or> k = 5 \<or> k = 6 \<or> k = 7 \<or> k = 8 \<or> k = 9"
    by arith
  then show ?thesis by (elim disjE) simp_all
qed

lemma dec_no_slash: "0x2F \<notin> set (dec n)"
proof (induction n rule: dec.induct)
  case (1 n)
  show ?case
  proof (cases "n < 10")
    case True
    then show ?thesis
      using digit_no_slash [of n] by (subst dec.simps) auto
  next
    case False
    then have "n mod 10 < 10" by simp
    from digit_no_slash [OF this] 1 False show ?thesis
      by (subst dec.simps) auto
  qed
qed

lemma stepFile_no_slash: "0x2F \<notin> set (js ''step_'' @ dec n @ js ''_'' @ dec t)"
  using dec_no_slash by (simp add: js_def)

lemma sketchFile_no_slash: "0x2F \<notin> set (js ''reference_sketch_'' @ dec t)"
  using dec_no_slash by (simp add: js_def)

lemma saveGeneratedImage_write:
  assumes "0x2F \<notin> set filename"
  shows "saveGeneratedImage decode f imageData m filename =
     (case fault f (path_join (js ''generated'') (filename @ extensionOf m)) of
        Some e \<Rightarrow> Inl e
      | None \<Rightarrow>
          if js ''generated'' \<notin> dirs f then
            (if files f (js ''generated'') \<noteq> None then Inl ENOTDIR else Inl ENOENT)
          else if path_join (js ''generated'') (filename @ extensionOf m) \<in> dirs f then Inl EISDIR
          else if free f < length (decode imageData) then Inl ENOSPC
          else Inr (js ''/generated/'' @ filename @ extensionOf m,
                    f\<lparr>files := (files f)(path_join (js ''generated'') (filename @ extensionOf m)
                                    \<mapsto> decode imageData),
                      free := free f - length (decode imageData)\<rparr>))"
proof -
  have "0x2F \<notin> set (filename @ extensionOf m)"
    using assms extensionOf_no_slash by simp
  then have "path_dirname (path_join (js ''generated'') (filename @ extensionOf m)) = js ''generated''"
    by (rule path_dirname_join)
  then show ?thesis
    by (simp add: saveGeneratedImage_def writeFileSync_def Let_def split: option.splits)
qed

lemma saveGeneratedImage_throws:
  assumes "0x2F \<notin> set filename" and "js ''generated'' \<notin> dirs f"
  shows "\<exists>e. saveGeneratedImage decode f imageData m filename = Inl e"
  unfolding saveGeneratedImage_write [OF assms(1)] using assms(2)
  by (simp split: option.splits)

lemma saveGeneratedImage_ENOENT:
  assumes "0x2F \<notin> set filename" and "\<not> existsSync f (js ''generated'')"
    and "fault f (path_join (js ''generated'') (filename @ extensionOf m)) = None"
  shows "saveGeneratedImage decode f imageData m filename = Inl ENOENT"
  unfolding saveGeneratedImage_write [OF assms(1)] using assms(2,3)
  by (simp add: existsSync_def)

lemma saveGeneratedImage_stored:
  assumes "0x2F \<notin> set filename"
    and "saveGeneratedImage decode f imageData m filename = Inr (u, f')"
  shows "dirs f' = dirs f \<and> js ''generated'' \<in> dirs f \<and>
         u = js ''/generated/'' @ filename @ extensionOf m \<and>
         files f' (path_join (js ''generated'') (filename @ extensionOf m)) = Some (decode imageData)"
  using assms(2) unfolding saveGeneratedImage_write [OF assms(1)]
  by (auto split: option.splits if_splits)

lemma saveGeneratedImage_succeeds:
  assumes "0x2F \<notin> set filename" and "js ''generated'' \<in> dirs f"
    and "path_join (js ''generated'') (filename @ extensionOf m) \<notin> dirs f"
    and "fault f (path_join (js ''generated'') (filename @ extensionOf m)) = None"
    and "length (decode imageData) \<le> free f"
  shows "\<exists>f'. saveGeneratedImage decode f imageData m filename =
           Inr (js ''/generated/'' @ filename @ extensionOf m, f')"
  unfolding saveGeneratedImage_write [OF assms(1)] using assms(2-5) by simp

lemma saveGeneratedImage_ENOSPC:
  assumes "0x2F \<notin> set filename" and "js ''generated'' \<in> dirs f"
    and "path_join (js ''generated'') (filename @ extensionOf m) \<notin> dirs f"
    and "fault f (path_join (js ''generated'') (filename @ extensionOf m)) = None"
    and "free f < length (decode imageData)"
  shows "saveGeneratedImage decode f imageData m filename = Inl ENOSPC"
  unfolding saveGeneratedImage_write [OF assms(1)] using assms(2-5) by simp

lemma ensureDir_result:
  "ensureDir f d = Inr f' \<Longrightarrow>
     existsSync f' d \<and> (\<not> existsSync f d \<longrightarrow> d \<in> dirs f') \<and>
     (\<forall>p. existsSync f p \<longrightarrow> existsSync f' p)"
  by (auto simp: ensureDir_def mkdirSync_def existsSync_def split: option.splits if_splits)

lemma ensureDir_idle: "existsSync f d \<Longrightarrow> ensureDir f d = Inr f"
  by (simp add: ensureDir_def)

lemma ensureDir_ok:
  "fault f d = None \<Longrightarrow> \<exists>f'. ensureDir f d = Inr f' \<and> fault f' = fault f"
  by (auto simp: ensureDir_def mkdirSync_def existsSync_def)

lemma startup_result:
  assumes "startup f = Inr f'"
  shows "existsSync f' (js ''generated'') \<and>
         (\<not> existsSync f (js ''generated'') \<longrightarrow> js ''generated'' \<in> dirs f') \<and>
         startup f' = Inr f'"
proof -
  from assms obtain f1 where u: "ensureDir f (js ''uploads'') = Inr f1"
    and g: "ensureDir f1 (js ''generated'') = Inr f'"
    by (auto simp: startup_def split: sum.splits)
  note ru = ensureDir_result [OF u] and rg = ensureDir_result [OF g]
  from ru rg have eu: "existsSync f' (js ''uploads'')" by blast
  from rg have eg: "existsSync f' (js ''generated'')" by blast
  have new: "js ''generated'' \<in> dirs f'" if "\<not> existsSync f (js ''generated'')"
  proof -
    have "js ''generated'' \<noteq> js ''uploads''" by (simp add: js_def)
    with that u have "\<not> existsSync f1 (js ''generated'')"
      by (auto simp: ensureDir_def mkdirSync_def existsSync_def split: option.splits if_splits)
    with rg show ?thesis by blast
  qed
  have "startup f' = Inr f'"
    unfolding startup_def using ensureDir_idle [OF eu] ensureDir_idle [OF eg] by simp
  with eg new show ?thesis by blast
qed

lemma startup_ok:
  assumes "fault f (js ''uploads'') = None" and "fault f (js ''generated'') = None"
  shows "\<exists>f'. startup f = Inr f'"
proof -
  from ensureDir_ok [OF assms(1)] obtain f1
    where u: "ensureDir f (js ''uploads'') = Inr f1" and "fault f1 = fault f" by blast
  with assms(2) have "fault f1 (js ''generated'') = None" by simp
  from ensureDir_ok [OF this] obtain f' where "ensureDir f1 (js ''generated'') = Inr f'" by blast
  with u show ?thesis by (simp add: startup_def)
qed

lemma saveGeneratedImage_demo_creates:
  assumes "0x2F \<notin> set filename"
    and "\<not> existsSync f (js ''generated_images'')"
    and "fault f (js ''generated_images'') = None"
    and "path_join (js ''generated_images'') (filename @ extensionOf m) \<notin> dirs f"
    and "fault f (path_join (js ''generated_images'') (filename @ extensionOf m)) = None"
    and "length (decode imageData) \<le> free f"
  shows "\<exists>f'. saveGeneratedImage_demo decode f imageData m filename =
            Inr (path_join (js ''generated_images'') (filename @ extensionOf m), f') \<and>
          js ''generated_images'' \<in> dirs f' \<and>
          files f' (path_join (js ''generated_images'') (filename @ extensionOf m)) =
            Some (decode imageData)"
proof -
  let ?p = "path_join (js ''generated_images'') (filename @ extensionOf m)"
  have "0x2F \<notin> set (filename @ extensionOf m)"
    using assms(1) extensionOf_no_slash by simp
  then have d: "path_dirname ?p = js ''generated_images''"
    by (rule path_dirname_join)
  have "?p \<noteq> js ''generated_images''" by (simp add: path_join_def)
  then show ?thesis using assms(2-6)
    by (simp add: saveGeneratedImage_demo_def d writeFileSync_def mkdirSync_def Let_def
        existsSync_def)
qed

section \<open>Properties of the orchestrator\<close>

lemma audioLoop_eq:
  "audioLoop i steps =
     Inr (take i steps @ map (\<lambda>s. s\<lparr>audio := Some (js ''audio_placeholder.mp3'')\<rparr>) (drop i steps))"
proof (induction "length steps - i" arbitrary: i steps)
  case 0
  then show ?case by (subst audioLoop.simps) simp
next
  case (Suc k)
  let ?f = "\<lambda>s. s\<lparr>audio := Some (js ''audio_placeholder.mp3'')\<rparr>"
  from Suc.hyps(2) have lt: "i < length steps" by simp
  let ?steps = "steps[i := ?f (steps ! i)]"
  have "k = length ?steps - (i + 1)" using Suc.hyps(2) by simp
  from Suc.hyps(1) [OF this]
  have "audioLoop (i + 1) ?steps = Inr (take (i + 1) ?steps @ map ?f (drop (i + 1) ?steps))" .
  also have "take (i + 1) ?steps = take i steps @ [?f (steps ! i)]"
    using lt by (simp add: take_Suc_conv_app_nth)
  also have "drop (i + 1) ?steps = drop (i + 1) steps" by simp
  finally have "audioLoop (i + 1) ?steps =
      Inr (take i steps @ map ?f (steps ! i # drop (i + 1) steps))" by simp
  also have "steps ! i # drop (i + 1) steps = drop i steps"
    using lt by (simp add: Cons_nth_drop_Suc)
  finally have r: "audioLoop (i + 1) ?steps = Inr (take i steps @ map ?f (drop i steps))" .
  have "audioLoop i steps = audioLoop (i + 1) ?steps"
    using lt by (subst audioLoop.simps) (simp add: generateAudioNarration_def)
  with r show ?case by simp
qed

lemma audioLoop_0:
  "audioLoop 0 steps = Inr (map (\<lambda>s. s\<lparr>audio := Some (js ''audio_placeholder.mp3'')\<rparr>) steps)"
  by (simp add: audioLoop_eq)

lemma generateTutorial_Json200:
  assumes "fst (generateTutorial w st req) = Json200 sk narrated"
  shows "\<exists>sketchUrl ref f1 imageDescription steps prev st2.
           generatePencilSketchFromImage w (fs st) = ((Some sketchUrl, ref), f1) \<and>
           analyzeImage w = Inr imageDescription \<and>
           generationLoop w ref
             (generateTutorialPlan (planText w) (determineOptimalSteps (stepsText w)))
             (determineOptimalSteps (stepsText w)) 0 [] [] (st\<lparr>fs := f1\<rparr>)
             = (Inr (steps, prev), st2) \<and>
           narrated = map (\<lambda>s. s\<lparr>audio := Some (js ''audio_placeholder.mp3'')\<rparr>) steps \<and>
           sk = \<lparr>sketchImageUrl = sketchUrl, sketchDescription = imageDescription,
                  sketchAudio = js ''audio_placeholder.mp3''\<rparr>"
  using assms unfolding generateTutorial_def Let_def audioLoop_0 generateAudioNarration_def
  by (auto split: if_splits prod.splits option.splits sum.splits)

lemma stepDescriptionAt_plan:
  "[] \<notin> set plan \<Longrightarrow> map (stepDescriptionAt plan) [0..<length plan] = plan"
proof -
  assume ne: "[] \<notin> set plan"
  have "map (stepDescriptionAt plan) [0..<length plan] = map (\<lambda>i. plan ! i) [0..<length plan]"
  proof (rule map_cong [OF refl])
    fix i assume "i \<in> set [0..<length plan]"
    then have "i < length plan" by simp
    with ne have "plan ! i \<noteq> []" by (metis nth_mem)
    with \<open>i < length plan\<close> show "stepDescriptionAt plan i = plan ! i"
      by (simp add: stepDescriptionAt_def)
  qed
  then show ?thesis by (simp add: map_nth)
qed

lemma generateTutorial_steps:
  assumes "fst (generateTutorial w st req) = Json200 sk narrated"
  shows "length narrated = determineOptimalSteps (stepsText w)"
    and "map step narrated = [1..<determineOptimalSteps (stepsText w) + 1]"
    and "map description narrated =
           generateTutorialPlan (planText w) (determineOptimalSteps (stepsText w))"
    and "map audio narrated =
           replicate (determineOptimalSteps (stepsText w)) (Some (js ''audio_placeholder.mp3''))"
    and "sketchAudio sk = js ''audio_placeholder.mp3''"
proof -
  let ?n = "determineOptimalSteps (stepsText w)"
  let ?plan = "generateTutorialPlan (planText w) ?n"
  from generateTutorial_Json200 [OF assms] obtain sketchUrl ref f1 imageDescription steps prev st2
    where run: "generationLoop w ref ?plan ?n 0 [] [] (st\<lparr>fs := f1\<rparr>) = (Inr (steps, prev), st2)"
      and narrated: "narrated = map (\<lambda>s. s\<lparr>audio := Some (js ''audio_placeholder.mp3'')\<rparr>) steps"
      and sk: "sk = \<lparr>sketchImageUrl = sketchUrl, sketchDescription = imageDescription,
                  sketchAudio = js ''audio_placeholder.mp3''\<rparr>"
    by blast
  have "loopState w ref ?plan ?n (st\<lparr>fs := f1\<rparr>) 0 [] [] (st\<lparr>fs := f1\<rparr>) []"
    by (rule loopState.loopStart)
  from generationLoop_reaches [OF this run] obtain produced
    where fin: "loopState w ref ?plan ?n (st\<lparr>fs := f1\<rparr>) ?n steps prev st2 produced" ..
  from loopState_index [OF fin] have len: "length steps = ?n" by simp
  from loopState_steps [OF fin] have st: "map step steps = [1..<?n + 1]"
    and de: "map description steps = map (stepDescriptionAt ?plan) [0..<?n]" by simp_all
  have "map (stepDescriptionAt ?plan) [0..<length ?plan] = ?plan"
    by (rule stepDescriptionAt_plan) (rule generateTutorialPlan_no_empty)
  then have de': "map description steps = ?plan"
    using de by (simp add: generateTutorialPlan_length)
  show "length narrated = ?n" using len narrated by simp
  show "map step narrated = [1..<?n + 1]" using st narrated by (simp add: comp_def)
  show "map description narrated = ?plan" using de' narrated by (simp add: comp_def)
  show "map audio narrated = replicate ?n (Some (js ''audio_placeholder.mp3''))"
    using len narrated by (simp add: comp_def map_replicate_const)
  show "sketchAudio sk = js ''audio_placeholder.mp3''" using sk by simp
qed

lemma stepContent_shape:
  "stepContent desc ref prev n tot =
     [Prompt desc n tot, Inline ref] @ (if prev = [] then [] else [Inline (Some (last prev))])"
  by (simp add: stepContent_def last_conv_nth)

lemma loopState_sent:
  "loopState w ref plan tot st0 i steps prev st produced \<Longrightarrow>
     \<exists>new. sent st = sent st0 @ new \<and> length new = i \<and>
       (\<forall>e \<in> set new. length (snd e) \<le> 3)"
proof (induction rule: loopState.induct)
  case loopStart
  show ?case by simp
next
  case (loopNext i steps prev st produced url imageData st')
  then obtain new where new: "sent st = sent st0 @ new" "length new = i"
      "\<forall>e \<in> set new. length (snd e) \<le> 3" by blast
  let ?c = "stepContent (stepDescriptionAt plan i) ref prev (i + 1) tot"
  have "sent st' = sent st @ [(i + 1, ?c)]"
    using generateStepImage_sent [of w st "stepDescriptionAt plan i" ref prev "i + 1" tot]
      loopNext.hyps(3) by simp
  moreover have "length ?c \<le> 3" by (simp add: stepContent_def)
  ultimately have "sent st' = sent st0 @ (new @ [(i + 1, ?c)]) \<and>
      length (new @ [(i + 1, ?c)]) = i + 1 \<and>
      (\<forall>e \<in> set (new @ [(i + 1, ?c)]). length (snd e) \<le> 3)"
    using new by simp
  then show ?case by blast
qed

lemma updateWindow_fifo:
  "updateWindow prev (Some d) = (if length prev < 2 then prev @ [d] else tl prev @ [d])"
  by (cases prev) (simp_all add: updateWindow_def Let_def)

lemma stepParts_first:
  "\<forall>p \<in> set pre. inlineData p = None \<Longrightarrow>
   stepParts w f n (pre @ Part t (Some d) # post) =
     (case saveGeneratedImage (fromBase64 w) f (data d) (mimeType d)
             (js ''step_'' @ dec n @ js ''_'' @ dec (now w n)) of
        Inr (u, f1) \<Rightarrow> ((Some u, Some d), f1)
      | Inl saveError \<Rightarrow> ((None, None), f))"
  by (induction pre) (simp_all add: Let_def)

lemma no_image_is_recovered:
  assumes "i < tot"
    and "generateStepImage w st (stepDescriptionAt plan i) ref prev (i + 1) tot =
           (Some (None, None), st1)"
  shows "generationLoop w ref plan tot i steps prev st =
           generationLoop w ref plan tot (i + 1)
             (steps @ [\<lparr>step = i + 1, description = stepDescriptionAt plan i,
                        imageUrl = None, audio = None\<rparr>])
             prev st1"
  using generationLoop_step [OF assms, of steps] by (simp add: updateWindow_None)

lemma generationLoop_completes:
  assumes "\<And>n c. \<exists>r. stepResponse w n c = Inr r"
  shows "\<exists>steps' prev' st'.
           generationLoop w ref plan tot i steps prev st = (Inr (steps', prev'), st')"
proof (induction "tot - i" arbitrary: i steps prev st)
  case 0
  then have "\<not> i < tot" by simp
  from generationLoop_done [OF this] show ?case by blast
next
  case (Suc k)
  then have lt: "i < tot" by simp
  obtain r st1 where g: "generateStepImage w st (stepDescriptionAt plan i) ref prev (i + 1) tot = (r, st1)"
    by (cases "generateStepImage w st (stepDescriptionAt plan i) ref prev (i + 1) tot")
  have "r \<noteq> None"
  proof
    assume "r = None"
    with g have "fst (generateStepImage w st (stepDescriptionAt plan i) ref prev (i + 1) tot) = None"
      by simp
    then obtain e where "stepResponse w (i + 1) (stepContent (stepDescriptionAt plan i) ref prev (i + 1) tot) = Inl e"
      unfolding generateStepImage_null by blast
    with assms [of "i + 1" "stepContent (stepDescriptionAt plan i) ref prev (i + 1) tot"]
    show False by auto
  qed
  then obtain url imageData where "r = Some (url, imageData)" by (cases r) auto
  with g have g': "generateStepImage w st (stepDescriptionAt plan i) ref prev (i + 1) tot
      = (Some (url, imageData), st1)" by simp
  have "k = tot - (i + 1)" using Suc.hyps(2) by simp
  from Suc.hyps(1) [OF this] show ?case
    unfolding generationLoop_step [OF lt g'] .
qed

lemma request_completes:
  assumes up: "uploadedFile req \<noteq> None"
    and di: "difficulty req \<noteq> None" "difficulty req \<noteq> Some []"
    and sk: "generatePencilSketchFromImage w (fs st) = ((Some sketchUrl, ref), f1)" "sketchUrl \<noteq> []"
    and vi: "visionText w = Inr imageDescription"
    and im: "\<And>n c. \<exists>r. stepResponse w n c = Inr r"
  shows "\<exists>sk narrated. fst (generateTutorial w st req) = Json200 sk narrated"
proof -
  let ?n = "determineOptimalSteps (stepsText w)"
  let ?plan = "generateTutorialPlan (planText w) ?n"
  from generationLoop_completes [OF im] obtain steps' prev' st'
    where run: "generationLoop w ref ?plan ?n 0 [] [] (st\<lparr>fs := f1\<rparr>) = (Inr (steps', prev'), st')"
    by blast
  show ?thesis
    unfolding generateTutorial_def Let_def audioLoop_0 generateAudioNarration_def
    using up di sk vi run by (simp add: analyzeImage_def)
qed

lemma plan_failure_recovered:
  assumes pl: "planText w = Inl e"
    and up: "uploadedFile req \<noteq> None"
    and di: "difficulty req \<noteq> None" "difficulty req \<noteq> Some []"
    and sk: "generatePencilSketchFromImage w (fs st) = ((Some sketchUrl, ref), f1)" "sketchUrl \<noteq> []"
    and vi: "visionText w = Inr imageDescription"
    and im: "\<And>n c. \<exists>r. stepResponse w n c = Inr r"
  shows "\<exists>sk narrated. fst (generateTutorial w st req) = Json200 sk narrated \<and>
           map description narrated =
             map (\<lambda>i. js ''Work on part '' @ dec i @ js '' of your drawing.'')
               [1..<determineOptimalSteps (stepsText w) + 1]"
proof -
  from request_completes [OF up di sk vi im] obtain sk narrated
    where r: "fst (generateTutorial w st req) = Json200 sk narrated" by blast
  from generateTutorial_steps(3) [OF r] have "map description narrated =
      generateTutorialPlan (Inl e) (determineOptimalSteps (stepsText w))"
    unfolding pl .
  with r show ?thesis unfolding generateTutorialPlan_Inl by blast
qed

lemma generationLoop_through:
  "loopState w ref plan tot st0 i steps prev st produced \<Longrightarrow>
   generationLoop w ref plan tot 0 [] [] st0 = generationLoop w ref plan tot i steps prev st"
proof (induction rule: loopState.induct)
  case loopStart
  show ?case by (rule refl)
next
  case (loopNext i steps prev st produced url imageData st')
  from generationLoop_step [OF loopNext.hyps(2,3), of steps] loopNext.IH show ?case by simp
qed

lemma generationLoop_prefix:
  "generationLoop w ref plan tot i steps prev st = (Inr (steps', prev'), st') \<Longrightarrow>
   take (length steps) steps' = steps \<and> length steps' = length steps + (tot - i)"
proof (induction "tot - i" arbitrary: i steps prev st)
  case 0
  then have "\<not> i < tot" by simp
  from generationLoop_done [OF this] 0 show ?case by simp
next
  case (Suc k)
  then have lt: "i < tot" by simp
  obtain r st1 where g: "generateStepImage w st (stepDescriptionAt plan i) ref prev (i + 1) tot = (r, st1)"
    by (cases "generateStepImage w st (stepDescriptionAt plan i) ref prev (i + 1) tot")
  show ?case
  proof (cases r)
    case None
    with g have "generateStepImage w st (stepDescriptionAt plan i) ref prev (i + 1) tot = (None, st1)"
      by simp
    from generationLoop_abort [OF lt this] Suc.prems show ?thesis by simp
  next
    case (Some ud)
    obtain url imageData where "ud = (url, imageData)" by (cases ud)
    with g Some have g': "generateStepImage w st (stepDescriptionAt plan i) ref prev (i + 1) tot
        = (Some (url, imageData), st1)" by simp
    let ?steps = "steps @ [\<lparr>step = i + 1, description = stepDescriptionAt plan i,
                    imageUrl = url, audio = None\<rparr>]"
    have run: "generationLoop w ref plan tot (i + 1) ?steps (updateWindow prev imageData) st1
        = (Inr (steps', prev'), st')"
      using Suc.prems generationLoop_step [OF lt g'] by simp
    have "k = tot - (i + 1)" using Suc.hyps(2) by simp
    from Suc.hyps(1) [OF this run]
    have t: "take (length ?steps) steps' = ?steps"
      and l: "length steps' = length ?steps + (tot - (i + 1))" by simp_all
    have "take (length steps) steps' = take (length steps) (take (length ?steps) steps')"
      by (simp add: min_def)
    also have "\<dots> = steps" unfolding t by simp
    finally show ?thesis using l lt by simp
  qed
qed

section \<open>The example requests, run\<close>

lemma gapWorld_run:
  "(case generateTutorial gapWorld idle upload of (r, st) \<Rightarrow> (r, take 3 (sent st))) =
     (Json200 gapSketch gapSteps,
      [(1, [Prompt (js ''Draw the head'') 1 8, Inline (Some sketchImage)]),
       (2, [Prompt filler 2 8, Inline (Some sketchImage), Inline (Some (stepImage 1))]),
       (3, [Prompt filler 3 8, Inline (Some sketchImage), Inline (Some (stepImage 1))])])"
  by code_simp

lemma gapWorld_response: "fst (generateTutorial gapWorld idle upload) = Json200 gapSketch gapSteps"
  using gapWorld_run by (simp split: prod.splits)

lemma gapWorld_sent:
  "take 3 (sent (snd (generateTutorial gapWorld idle upload))) =
     [(1, [Prompt (js ''Draw the head'') 1 8, Inline (Some sketchImage)]),
      (2, [Prompt filler 2 8, Inline (Some sketchImage), Inline (Some (stepImage 1))]),
      (3, [Prompt filler 3 8, Inline (Some sketchImage), Inline (Some (stepImage 1))])]"
  using gapWorld_run by (simp split: prod.splits)

lemma lateFailure_run:
  "(case generateTutorial lateFailureWorld idle upload of (r, st) \<Rightarrow> (r, map fst (sent st))) =
     (Json500 TypeError, [1, 2, 3])"
  by code_simp

lemma gap_step1:
  "fst (generateStepImage gapWorld idle (stepDescriptionAt gapPlan 0) (Some sketchImage) []
          (0 + 1) 8) = Some (Some (js ''/generated/step_1_1701.jpg''), Some (stepImage 1))"
  by code_simp

lemma gap_step2:
  "fst (generateStepImage gapWorld gapState1 (stepDescriptionAt gapPlan (0 + 1))
          (Some sketchImage) (updateWindow [] (Some (stepImage 1))) (0 + 1 + 1) 8) =
     Some (None, None)"
  by code_simp

lemma gap_loopState2:
  "loopState gapWorld (Some sketchImage) gapPlan 8 idle 2
     [\<lparr>step = 1, description = stepDescriptionAt gapPlan 0,
        imageUrl = Some (js ''/generated/step_1_1701.jpg''), audio = None\<rparr>,
      \<lparr>step = 2, description = stepDescriptionAt gapPlan 1, imageUrl = None, audio = None\<rparr>]
     [stepImage 1] gapState2 [Some (stepImage 1), None]"
proof -
  have g1: "generateStepImage gapWorld idle (stepDescriptionAt gapPlan 0) (Some sketchImage) []
          (0 + 1) 8 = (Some (Some (js ''/generated/step_1_1701.jpg''), Some (stepImage 1)), gapState1)"
    using gap_step1 unfolding gapState1_def by (simp only: prod_eq_iff fst_conv snd_conv simp_thms)
  have g2: "generateStepImage gapWorld gapState1 (stepDescriptionAt gapPlan (0 + 1))
          (Some sketchImage) (updateWindow [] (Some (stepImage 1))) (0 + 1 + 1) 8 =
          (Some (None, None), gapState2)"
    using gap_step2 unfolding gapState2_def by (simp only: prod_eq_iff fst_conv snd_conv simp_thms)
  have l0: "loopState gapWorld (Some sketchImage) gapPlan 8 idle 0 [] [] idle []"
    by (rule loopState.loopStart)
  have l1: "loopState gapWorld (Some sketchImage) gapPlan 8 idle (0 + 1)
      ([] @ [\<lparr>step = 0 + 1, description = stepDescriptionAt gapPlan 0,
               imageUrl = Some (js ''/generated/step_1_1701.jpg''), audio = None\<rparr>])
      (updateWindow [] (Some (stepImage 1))) gapState1 ([] @ [Some (stepImage 1)])"
    by (rule loopState.loopNext [OF l0 _ g1]) simp
  have l2: "loopState gapWorld (Some sketchImage) gapPlan 8 idle (0 + 1 + 1)
      (([] @ [\<lparr>step = 0 + 1, description = stepDescriptionAt gapPlan 0,
               imageUrl = Some (js ''/generated/step_1_1701.jpg''), audio = None\<rparr>]) @
       [\<lparr>step = 0 + 1 + 1, description = stepDescriptionAt gapPlan (0 + 1),
          imageUrl = None, audio = None\<rparr>])
      (updateWindow (updateWindow [] (Some (stepImage 1))) None) gapState2
      (([] @ [Some (stepImage 1)]) @ [None])"
    by (rule loopState.loopNext [OF l1 _ g2]) simp
  then show ?thesis by (simp add: updateWindow_def numeral_2_eq_2)
qed

lemma gap_run4:
  "map_sum id snd (fst (generationLoop gapWorld (Some sketchImage) [] 4 0 [] [] idle)) =
     Inr [stepImage 3, stepImage 4]"
  by code_simp

section \<open>What a step's image call is given\<close>

text \<open>
  Claim C2, as the specification states it, fails. In \<open>gapWorld\<close> step 1 produces an
  image and step 2 produces none (its record has no image URL). The call for step 3
  then carries, after the prompt and the reference sketch, the image of step 1: an image
  of step \<open>i - 2\<close>.
\<close>

theorem step_content_counterexample:
  "take 3 (sent (snd (generateTutorial gapWorld idle upload))) =
     [(1, [Prompt (js ''Draw the head'') 1 8, Inline (Some sketchImage)]),
      (2, [Prompt filler 2 8, Inline (Some sketchImage), Inline (Some (stepImage 1))]),
      (3, [Prompt filler 3 8, Inline (Some sketchImage), Inline (Some (stepImage 1))])] \<and>
   map imageUrl (take 3 (stepsOf (fst (generateTutorial gapWorld idle upload)))) =
     [Some (js ''/generated/step_1_1701.jpg''), None, Some (js ''/generated/step_3_1703.jpg'')] \<and>
   stepResponse gapWorld 1 [] = Inr (imageReply (stepImage 1)) \<and>
   stepResponse gapWorld 2 [] = Inr (textReply (js ''no image''))"
  using gapWorld_sent gapWorld_response
  by (simp add: gapSteps_def gapWorld_def)

text \<open>
  Claim C2, amended. At every iteration of the generation loop (index \<open>i\<close>, step number
  \<open>i + 1\<close>), what is sent to the image model is the step prompt, the reference sketch
  and, when an earlier step of the request produced an image, the image of the most
  recent earlier step that produced one (\<open>latestImage\<close>), and nothing else. That image is
  the one of the step just before whenever that step produced an image; there is no
  previous image exactly when no earlier step produced one.
\<close>

theorem step_content_latest_image:
  assumes "loopState w ref plan tot st0 i steps prev st produced" and "i < tot"
  shows "sent (snd (generateStepImage w st (stepDescriptionAt plan i) ref prev (i + 1) tot)) =
           sent st @
           [(i + 1, [Prompt (stepDescriptionAt plan i) (i + 1) tot, Inline ref] @
                    (case latestImage produced of None \<Rightarrow> [] | Some d \<Rightarrow> [Inline (Some d)]))] \<and>
         (\<forall>d. 0 < i \<and> produced ! (i - 1) = Some d \<longrightarrow> latestImage produced = Some d) \<and>
         (latestImage produced = None \<longleftrightarrow> (\<forall>x \<in> set produced. x = None))"
proof -
  have w: "prev = recentTwo (producedImages produced)"
    using assms(1) by (rule loopState_window)
  have len: "length produced = i" using loopState_index [OF assms(1)] by simp
  have c: "stepContent (stepDescriptionAt plan i) ref prev (i + 1) tot =
      [Prompt (stepDescriptionAt plan i) (i + 1) tot, Inline ref] @
      (case latestImage produced of None \<Rightarrow> [] | Some d \<Rightarrow> [Inline (Some d)])"
    unfolding w stepContent_window latestImage_produced by simp
  have a: "latestImage produced = Some d" if "0 < i" "produced ! (i - 1) = Some d" for d
  proof -
    from that len have "produced = butlast produced @ [Some d]"
      by (metis append_butlast_last_id last_conv_nth length_greater_0_conv)
    then have "producedImages produced = producedImages (butlast produced) @ [d]"
      by (metis producedImages_snoc_Some)
    then show ?thesis by (simp add: latestImage_produced)
  qed
  have "producedImages produced = [] \<longleftrightarrow> (\<forall>x \<in> set produced. x = None)"
    by (induction produced rule: producedImages.induct) simp_all
  then have n: "latestImage produced = None \<longleftrightarrow> (\<forall>x \<in> set produced. x = None)"
    unfolding latestImage_produced by simp
  show ?thesis
    using generateStepImage_sent [of w st "stepDescriptionAt plan i" ref prev "i + 1" tot] c a n
    by simp
qed

theorem step_content_latest_image_witness:
  "loopState gapWorld (Some sketchImage) gapPlan 8 idle 2
     [\<lparr>step = 1, description = stepDescriptionAt gapPlan 0,
        imageUrl = Some (js ''/generated/step_1_1701.jpg''), audio = None\<rparr>,
      \<lparr>step = 2, description = stepDescriptionAt gapPlan 1, imageUrl = None, audio = None\<rparr>]
     [stepImage 1] gapState2 [Some (stepImage 1), None] \<and>
   (2::nat) < 8 \<and>
   sent (snd (generateStepImage gapWorld gapState2 (stepDescriptionAt gapPlan 2)
                (Some sketchImage) [stepImage 1] 3 8)) =
     sent gapState2 @
     [(3, [Prompt (stepDescriptionAt gapPlan 2) 3 8, Inline (Some sketchImage),
           Inline (Some (stepImage 1))])]"
proof -
  have l: "latestImage [Some (stepImage 1), None] = Some (stepImage 1)"
    by (simp add: latestImage_def)
  have lt: "(2::nat) < 8" by simp
  show ?thesis
    using gap_loopState2 l step_content_latest_image [OF gap_loopState2 lt]
    by simp
qed

section \<open>The window of recent step images\<close>

text \<open>
  Claim C8. In every state of the generation loop the window
  \<open>previousStepsImagesData\<close> holds at most two images, namely the last two that the
  steps so far produced, in order: an update appends the new image and, once there
  would be more than two, drops the oldest; a step without an image leaves the window
  as it is. A call built from the window carries, after the prompt and the reference
  sketch, only the last entry of the window, so every request sent to the image model
  during the loop has at most one previous image (at most three items).
\<close>

theorem window_bounded:
  assumes "loopState w ref plan tot st0 i steps prev st produced"
  shows "length prev \<le> 2 \<and>
         prev = recentTwo (producedImages produced) \<and>
         length (updateWindow prev x) \<le> 2 \<and>
         updateWindow prev None = prev \<and>
         updateWindow prev (Some d) = (if length prev < 2 then prev @ [d] else tl prev @ [d]) \<and>
         stepContent desc r prev n m =
           [Prompt desc n m, Inline r] @
           (if prev = [] then [] else [Inline (Some (last prev))]) \<and>
         (\<forall>e \<in> set (drop (length (sent st0)) (sent st)). length (snd e) \<le> 3)"
proof -
  have w: "prev = recentTwo (producedImages produced)"
    using assms by (rule loopState_window)
  then have l: "length prev \<le> 2" by (simp add: recentTwo_length)
  have u: "length (updateWindow prev x) \<le> 2"
  proof (cases x)
    case None
    with l show ?thesis by (simp add: updateWindow_None)
  next
    case (Some y)
    show ?thesis unfolding Some w updateWindow_recentTwo by (rule recentTwo_length)
  qed
  from loopState_sent [OF assms] obtain new where "sent st = sent st0 @ new"
      "\<forall>e \<in> set new. length (snd e) \<le> 3" by blast
  then have s: "\<forall>e \<in> set (drop (length (sent st0)) (sent st)). length (snd e) \<le> 3" by simp
  show ?thesis
    using w l u s updateWindow_None [of prev] updateWindow_fifo [of prev d]
      stepContent_shape [of desc r prev n m]
    by (intro conjI)
qed

theorem window_bounded_witness:
  "map_sum id snd (fst (generationLoop gapWorld (Some sketchImage) [] 4 0 [] [] idle)) =
     Inr [stepImage 3, stepImage 4] \<and>
   length [stepImage 3, stepImage 4] \<le> 2 \<and>
   updateWindow [stepImage 3, stepImage 4] (Some (stepImage 5)) = [stepImage 4, stepImage 5] \<and>
   stepContent (js ''Add the tail'') (Some sketchImage) [stepImage 3, stepImage 4] 5 8 =
     [Prompt (js ''Add the tail'') 5 8, Inline (Some sketchImage), Inline (Some (stepImage 4))]"
proof -
  let ?W = "[stepImage 3, stepImage 4]"
  have run: "map_sum id snd (fst (generationLoop gapWorld (Some sketchImage) [] 4 0 [] [] idle)) =
      Inr ?W" by (rule gap_run4)
  obtain r st' where g: "generationLoop gapWorld (Some sketchImage) [] 4 0 [] [] idle = (r, st')"
    by (cases "generationLoop gapWorld (Some sketchImage) [] 4 0 [] [] idle")
  with run have "map_sum id snd r = Inr ?W" by simp
  then obtain S where r: "r = Inr (S, ?W)" by (cases r) auto
  have "loopState gapWorld (Some sketchImage) [] 4 idle 0 [] [] idle []"
    by (rule loopState.loopStart)
  from generationLoop_reaches [OF this g [unfolded r]] obtain produced
    where L: "loopState gapWorld (Some sketchImage) [] 4 idle 4 S ?W st' produced" ..
  from window_bounded [OF L, where d = "stepImage 5" and desc = "js ''Add the tail''"
      and r = "Some sketchImage" and n = 5 and m = 8]
  have a: "length ?W \<le> 2"
    and b: "updateWindow ?W (Some (stepImage 5)) =
      (if length ?W < 2 then ?W @ [stepImage 5] else tl ?W @ [stepImage 5])"
    and c: "stepContent (js ''Add the tail'') (Some sketchImage) ?W 5 8 =
      [Prompt (js ''Add the tail'') 5 8, Inline (Some sketchImage)] @
      (if ?W = [] then [] else [Inline (Some (last ?W))])"
    by blast+
  show ?thesis using run a b c by simp
qed

section \<open>The successful response\<close>

text \<open>
  Claim C6. In every 200 response the \<open>steps\<close> array has exactly \<open>totalSteps\<close> records,
  \<open>totalSteps\<close> being the result of the step count estimator; their \<open>step\<close> fields are
  1, 2, ..., \<open>totalSteps\<close> in this order, and the description of record \<open>i\<close> is the
  \<open>i\<close>-th entry of the generated plan.
\<close>

theorem response_steps_follow_plan:
  assumes "fst (generateTutorial w st req) = Json200 sk narrated"
  shows "length narrated = determineOptimalSteps (stepsText w) \<and>
         map step narrated = [1..<determineOptimalSteps (stepsText w) + 1] \<and>
         map description narrated =
           generateTutorialPlan (planText w) (determineOptimalSteps (stepsText w))"
  using generateTutorial_steps(1-3) [OF assms] by simp

theorem response_steps_follow_plan_witness:
  "fst (generateTutorial gapWorld idle upload) = Json200 gapSketch gapSteps \<and>
   determineOptimalSteps (stepsText gapWorld) = 8 \<and>
   length gapSteps = 8 \<and>
   map step gapSteps = [1..<8 + 1] \<and>
   map description gapSteps = generateTutorialPlan (planText gapWorld) 8"
proof -
  have n: "determineOptimalSteps (stepsText gapWorld) = 8" by code_simp
  show ?thesis
    using gapWorld_response response_steps_follow_plan [OF gapWorld_response]
    unfolding n by simp
qed

text \<open>
  Claim C9. In every 200 response the \<open>audio\<close> field of the sketch and the \<open>audio\<close>
  field of every step record are the string \<open>audio_placeholder.mp3\<close>; none is null.
\<close>

theorem response_audio_placeholder:
  assumes "fst (generateTutorial w st req) = Json200 sk narrated"
  shows "sketchAudio sk = js ''audio_placeholder.mp3'' \<and>
         (\<forall>s \<in> set narrated. audio s = Some (js ''audio_placeholder.mp3'')) \<and>
         (\<forall>s \<in> set narrated. audio s \<noteq> None)"
proof -
  have "\<forall>a \<in> set (map audio narrated). a = Some (js ''audio_placeholder.mp3'')"
    unfolding generateTutorial_steps(4) [OF assms] by simp
  then have "\<forall>s \<in> set narrated. audio s = Some (js ''audio_placeholder.mp3'')"
    by simp
  with generateTutorial_steps(5) [OF assms] show ?thesis by simp
qed

theorem response_audio_placeholder_witness:
  "fst (generateTutorial gapWorld idle upload) = Json200 gapSketch gapSteps \<and>
   sketchAudio gapSketch = js ''audio_placeholder.mp3'' \<and>
   audio (gapSteps ! 1) = Some (js ''audio_placeholder.mp3'')"
proof -
  have "gapSteps ! 1 \<in> set gapSteps" by (simp add: gapSteps_def)
  then show ?thesis
    using gapWorld_response response_audio_placeholder [OF gapWorld_response]
    by blast
qed

section \<open>Failures while a step image is generated\<close>

text \<open>
  Claim C10. Take a request that has reached the generation loop, in a world where no
  image call of a step throws, and an iteration whose reply carries an image that
  \<open>saveGeneratedImage\<close> fails to save. The error is caught inside \<open>generateStepImage\<close>,
  which returns \<open>{imageUrl: null, imageData: null}\<close>; the loop goes on to the next
  iteration with a record of the step that has a null image URL and with the window as
  it was; and the request is answered with status 200, with all its steps, the step in
  question among them with a null image URL.
\<close>

theorem save_failure_is_recovered:
  assumes up: "uploadedFile req \<noteq> None"
    and di: "difficulty req \<noteq> None" "difficulty req \<noteq> Some []"
    and sk: "generatePencilSketchFromImage w (fs st) = ((Some sketchUrl, ref), f1)"
      "sketchUrl \<noteq> []"
    and vi: "visionText w = Inr imageDescription"
    and im: "\<And>n c. \<exists>r. stepResponse w n c = Inr r"
    and tot: "tot = determineOptimalSteps (stepsText w)"
    and plan: "plan = generateTutorialPlan (planText w) tot"
    and head: "loopState w ref plan tot (st\<lparr>fs := f1\<rparr>) i steps prev sti produced"
    and lt: "i < tot"
    and reply: "stepResponse w (i + 1) (stepContent (stepDescriptionAt plan i) ref prev (i + 1) tot) =
            Inr (Response (Some (Candidate (Some (Content (Some (pre @ Part t (Some d) # post)))) # rest)))"
    and first: "\<forall>p \<in> set pre. inlineData p = None"
    and save: "saveGeneratedImage (fromBase64 w) (fs sti) (data d) (mimeType d)
            (js ''step_'' @ dec (i + 1) @ js ''_'' @ dec (now w (i + 1))) = Inl e"
  shows "generateStepImage w sti (stepDescriptionAt plan i) ref prev (i + 1) tot =
           (Some (None, None),
            sti\<lparr>sent := sent sti @
              [(i + 1, stepContent (stepDescriptionAt plan i) ref prev (i + 1) tot)]\<rparr>) \<and>
         loopState w ref plan tot (st\<lparr>fs := f1\<rparr>) (i + 1)
           (steps @ [\<lparr>step = i + 1, description = stepDescriptionAt plan i,
                      imageUrl = None, audio = None\<rparr>])
           prev
           (sti\<lparr>sent := sent sti @
              [(i + 1, stepContent (stepDescriptionAt plan i) ref prev (i + 1) tot)]\<rparr>)
           (produced @ [None]) \<and>
         (\<exists>sk narrated.
            fst (generateTutorial w st req) = Json200 sk narrated \<and>
            length narrated = tot \<and>
            step (narrated ! i) = i + 1 \<and>
            description (narrated ! i) = stepDescriptionAt plan i \<and>
            imageUrl (narrated ! i) = None)"
proof -
  let ?sti = "sti\<lparr>sent := sent sti @
      [(i + 1, stepContent (stepDescriptionAt plan i) ref prev (i + 1) tot)]\<rparr>"
  let ?rec = "\<lparr>step = i + 1, description = stepDescriptionAt plan i,
      imageUrl = None, audio = None\<rparr>"
  let ?f = "\<lambda>s. s\<lparr>audio := Some (js ''audio_placeholder.mp3'')\<rparr>"
  have g: "generateStepImage w sti (stepDescriptionAt plan i) ref prev (i + 1) tot =
      (Some (None, None), ?sti)"
    unfolding generateStepImage_def Let_def reply
    using save by (simp add: stepParts_first [OF first])
  have "loopState w ref plan tot (st\<lparr>fs := f1\<rparr>) (i + 1) (steps @ [?rec])
      (updateWindow prev None) ?sti (produced @ [None])"
    using head lt g by (rule loopState.loopNext)
  then have nxt: "loopState w ref plan tot (st\<lparr>fs := f1\<rparr>) (i + 1) (steps @ [?rec])
      prev ?sti (produced @ [None])"
    by (simp only: updateWindow_None)
  from generationLoop_completes [OF im] obtain steps' prev' st'
    where fin: "generationLoop w ref plan tot (i + 1) (steps @ [?rec]) prev ?sti =
      (Inr (steps', prev'), st')" by blast
  from generationLoop_through [OF nxt] fin
  have run: "generationLoop w ref plan tot 0 [] [] (st\<lparr>fs := f1\<rparr>) = (Inr (steps', prev'), st')"
    by simp
  from loopState_index [OF head] have len: "length steps = i" by simp
  from generationLoop_prefix [OF fin] len lt
  have pre: "take (i + 1) steps' = steps @ [?rec]" and all: "length steps' = tot"
    by simp_all
  have a1: "take (i + 1) steps' ! i = steps' ! i" by simp
  have a2: "(steps @ [?rec]) ! i = ?rec"
    using len nth_append_length [of steps ?rec "[]"] by simp
  from a1 [unfolded pre] a2 have at: "steps' ! i = ?rec" by simp
  have resp: "fst (generateTutorial w st req) =
      Json200 \<lparr>sketchImageUrl = sketchUrl, sketchDescription = imageDescription,
               sketchAudio = js ''audio_placeholder.mp3''\<rparr> (map ?f steps')"
    unfolding generateTutorial_def Let_def audioLoop_0 generateAudioNarration_def
    using up di sk vi run [unfolded plan tot] by (simp add: analyzeImage_def)
  have "i < length steps'" using all lt by simp
  then have "map ?f steps' ! i = ?f ?rec" using at by simp
  then have "step (map ?f steps' ! i) = i + 1"
    "description (map ?f steps' ! i) = stepDescriptionAt plan i"
    "imageUrl (map ?f steps' ! i) = None"
    by simp_all
  with resp all have "\<exists>sk narrated.
            fst (generateTutorial w st req) = Json200 sk narrated \<and>
            length narrated = tot \<and>
            step (narrated ! i) = i + 1 \<and>
            description (narrated ! i) = stepDescriptionAt plan i \<and>
            imageUrl (narrated ! i) = None"
    by (intro exI [of _ "map ?f steps'"] exI) simp
  with g nxt show ?thesis by blast
qed

theorem save_failure_is_recovered_witness:
  "saveGeneratedImage (fromBase64 gapWorld) lowDisk1 (data (stepImage 1)) (mimeType (stepImage 1))
     (js ''step_'' @ dec (0 + 1) @ js ''_'' @ dec (now gapWorld (0 + 1))) = Inl ENOSPC \<and>
   fst (generateStepImage gapWorld (lowDiskState\<lparr>fs := lowDisk1\<rparr>)
          (stepDescriptionAt (generateTutorialPlan (planText gapWorld)
             (determineOptimalSteps (stepsText gapWorld))) 0)
          (Some sketchImage) [] (0 + 1) (determineOptimalSteps (stepsText gapWorld))) =
     Some (None, None) \<and>
   fst (generateTutorial gapWorld lowDiskState upload) =
     Json200 (sketchOf (fst (generateTutorial gapWorld lowDiskState upload)))
       (stepsOf (fst (generateTutorial gapWorld lowDiskState upload))) \<and>
   length (stepsOf (fst (generateTutorial gapWorld lowDiskState upload))) = 8 \<and>
   imageUrl (stepsOf (fst (generateTutorial gapWorld lowDiskState upload)) ! 0) = None"
proof -
  let ?tot = "determineOptimalSteps (stepsText gapWorld)"
  let ?plan = "generateTutorialPlan (planText gapWorld) ?tot"
  let ?st0 = "lowDiskState\<lparr>fs := lowDisk1\<rparr>"
  let ?path = "path_join (js ''generated'')
      ((js ''step_'' @ dec (0 + 1) @ js ''_'' @ dec (now gapWorld (0 + 1))) @
       extensionOf (mimeType (stepImage 1)))"
  have n: "?tot = 8" by code_simp
  have up: "uploadedFile upload \<noteq> None" by (simp add: upload_def)
  have di: "difficulty upload \<noteq> None" "difficulty upload \<noteq> Some []"
    by (simp_all add: upload_def js_def)
  have "fst (generatePencilSketchFromImage gapWorld (fs lowDiskState)) =
      (Some (js ''/generated/reference_sketch_1700.png''), Some sketchImage)"
    by code_simp
  then have sk: "generatePencilSketchFromImage gapWorld (fs lowDiskState) =
      ((Some (js ''/generated/reference_sketch_1700.png''), Some sketchImage), lowDisk1)"
    unfolding lowDisk1_def by (simp only: prod_eq_iff fst_conv snd_conv simp_thms)
  have ne: "js ''/generated/reference_sketch_1700.png'' \<noteq> []" by (simp add: js_def)
  have vi: "visionText gapWorld = Inr (js ''A cat.'')" by (simp add: gapWorld_def)
  have im: "\<exists>r. stepResponse gapWorld n c = Inr r" for n c by (simp add: gapWorld_def)
  have head: "loopState gapWorld (Some sketchImage) ?plan ?tot ?st0 0 [] [] ?st0 []"
    by (rule loopState.loopStart)
  have lt: "0 < ?tot" unfolding n by simp
  have reply: "stepResponse gapWorld (0 + 1)
      (stepContent (stepDescriptionAt ?plan 0) (Some sketchImage) [] (0 + 1) ?tot) =
      Inr (Response (Some (Candidate (Some (Content (Some
        ([] @ Part None (Some (stepImage 1)) # [])))) # [])))"
    by (simp add: gapWorld_def imageReply_def)
  have first: "\<forall>p \<in> set []. inlineData p = None" by simp
  have d1: "js ''generated'' \<in> dirs lowDisk1" by code_simp
  have d2: "?path \<notin> dirs lowDisk1" by code_simp
  have d3: "fault lowDisk1 ?path = None" by code_simp
  have d4: "free lowDisk1 < length (fromBase64 gapWorld (data (stepImage 1)))" by code_simp
  have save: "saveGeneratedImage (fromBase64 gapWorld) (fs ?st0) (data (stepImage 1))
      (mimeType (stepImage 1)) (js ''step_'' @ dec (0 + 1) @ js ''_'' @ dec (now gapWorld (0 + 1))) =
      Inl ENOSPC"
    using saveGeneratedImage_ENOSPC [where decode = "fromBase64 gapWorld"
        and imageData = "data (stepImage 1)",
        OF stepFile_no_slash [of "0 + 1" "now gapWorld (0 + 1)"] d1 d2 d3 d4] by simp
  note t = save_failure_is_recovered [OF up di sk ne vi im refl refl head lt reply first save]
  from t obtain sk narrated
    where r: "fst (generateTutorial gapWorld lowDiskState upload) = Json200 sk narrated"
      and l: "length narrated = ?tot" and u: "imageUrl (narrated ! 0) = None" by blast
  from t have g: "fst (generateStepImage gapWorld ?st0 (stepDescriptionAt ?plan 0)
      (Some sketchImage) [] (0 + 1) ?tot) = Some (None, None)" by simp
  from save have s: "saveGeneratedImage (fromBase64 gapWorld) lowDisk1 (data (stepImage 1))
      (mimeType (stepImage 1)) (js ''step_'' @ dec (0 + 1) @ js ''_'' @ dec (now gapWorld (0 + 1))) =
      Inl ENOSPC" by simp
  from r l u n have "fst (generateTutorial gapWorld lowDiskState upload) =
     Json200 (sketchOf (fst (generateTutorial gapWorld lowDiskState upload)))
       (stepsOf (fst (generateTutorial gapWorld lowDiskState upload)))"
    "length (stepsOf (fst (generateTutorial gapWorld lowDiskState upload))) = 8"
    "imageUrl (stepsOf (fst (generateTutorial gapWorld lowDiskState upload)) ! 0) = None"
    by simp_all
  with s g show ?thesis by blast
qed

text \<open>
  Claim C1 holds for every reply that the image call returns: \<open>generateStepImage\<close>
  then gives a pair, and a pair of nulls is recorded as a step without image while the
  loop goes on (\<open>no_image_is_recovered\<close>, \<open>generationLoop_completes\<close>). It fails when
  the call throws: the outer \<open>catch\<close> returns \<open>null\<close> instead of a pair of nulls,
  destructuring it in the handler throws, and the request ends with status 500. In
  \<open>lateFailureWorld\<close> the call for step 3 throws after two steps went well: the request
  is answered with 500 and the two steps are lost.
\<close>

theorem step_call_failure_aborts_request:
  "fst (generateStepImage lateFailureWorld idle filler (Some sketchImage) [] 3 8) = None \<and>
   fst (generateTutorial lateFailureWorld idle upload) = Json500 TypeError \<and>
   map fst (sent (snd (generateTutorial lateFailureWorld idle upload))) = [1, 2, 3]"
proof -
  have "fst (generateStepImage lateFailureWorld idle filler (Some sketchImage) [] 3 8) = None"
    by code_simp
  then show ?thesis using lateFailure_run by (simp split: prod.splits)
qed

section \<open>Failure of the plan call\<close>

text \<open>
  Claim C5. When the plan call throws, \<open>generateTutorialPlan\<close> returns the generic
  plan: exactly \<open>totalSteps\<close> entries, the \<open>i\<close>-th being "Work on part \<open>i\<close> of your
  drawing.". The request, which has then an uploaded file, a difficulty, a reference
  sketch and a description, is answered with status 200 and has that plan as the
  descriptions of its steps; this is for the claim's scenario, in which the plan call
  is what fails and the image calls of the steps return.
\<close>

theorem plan_failure_is_recovered:
  assumes pl: "planText w = Inl e"
    and up: "uploadedFile req \<noteq> None"
    and di: "difficulty req \<noteq> None" "difficulty req \<noteq> Some []"
    and sk: "generatePencilSketchFromImage w (fs st) = ((Some sketchUrl, ref), f1)"
      "sketchUrl \<noteq> []"
    and vi: "visionText w = Inr imageDescription"
    and im: "\<And>n c. \<exists>r. stepResponse w n c = Inr r"
  shows "generateTutorialPlan (planText w) totalSteps =
           map (\<lambda>i. js ''Work on part '' @ dec i @ js '' of your drawing.'') [1..<totalSteps + 1] \<and>
         length (generateTutorialPlan (planText w) totalSteps) = totalSteps \<and>
         (\<exists>sk narrated.
            fst (generateTutorial w st req) = Json200 sk narrated \<and>
            length narrated = determineOptimalSteps (stepsText w) \<and>
            map description narrated =
              map (\<lambda>i. js ''Work on part '' @ dec i @ js '' of your drawing.'')
                [1..<determineOptimalSteps (stepsText w) + 1])"
proof -
  from request_completes [OF up di sk vi im] obtain sk narrated
    where r: "fst (generateTutorial w st req) = Json200 sk narrated" by blast
  from generateTutorial_steps(3) [OF r] have "map description narrated =
      generateTutorialPlan (Inl e) (determineOptimalSteps (stepsText w))"
    unfolding pl .
  then have d: "map description narrated =
      map (\<lambda>i. js ''Work on part '' @ dec i @ js '' of your drawing.'')
        [1..<determineOptimalSteps (stepsText w) + 1]"
    unfolding generateTutorialPlan_Inl .
  from generateTutorial_steps(1) [OF r] r d
  have "\<exists>sk narrated.
            fst (generateTutorial w st req) = Json200 sk narrated \<and>
            length narrated = determineOptimalSteps (stepsText w) \<and>
            map description narrated =
              map (\<lambda>i. js ''Work on part '' @ dec i @ js '' of your drawing.'')
                [1..<determineOptimalSteps (stepsText w) + 1]"
    by blast
  moreover have "generateTutorialPlan (planText w) totalSteps =
           map (\<lambda>i. js ''Work on part '' @ dec i @ js '' of your drawing.'') [1..<totalSteps + 1]"
    unfolding pl by (rule generateTutorialPlan_Inl)
  moreover have "length (generateTutorialPlan (planText w) totalSteps) = totalSteps"
    by (rule generateTutorialPlan_length)
  ultimately show ?thesis by blast
qed

theorem plan_failure_is_recovered_witness:
  "planText planFailureWorld = Inl ApiError \<and>
   generateTutorialPlan (planText planFailureWorld) 8 =
     map (\<lambda>i. js ''Work on part '' @ dec i @ js '' of your drawing.'') [1..<8 + 1] \<and>
   fst (generateTutorial planFailureWorld idle upload) =
     Json200 (sketchOf (fst (generateTutorial planFailureWorld idle upload)))
       (stepsOf (fst (generateTutorial planFailureWorld idle upload))) \<and>
   map description (stepsOf (fst (generateTutorial planFailureWorld idle upload))) =
     map (\<lambda>i. js ''Work on part '' @ dec i @ js '' of your drawing.'') [1..<8 + 1]"
proof -
  have n: "determineOptimalSteps (stepsText planFailureWorld) = 8" by code_simp
  have pl: "planText planFailureWorld = Inl ApiError" by (simp add: planFailureWorld_def)
  have up: "uploadedFile upload \<noteq> None" by (simp add: upload_def)
  have di: "difficulty upload \<noteq> None" "difficulty upload \<noteq> Some []"
    by (simp_all add: upload_def js_def)
  have "fst (generatePencilSketchFromImage planFailureWorld (fs idle)) =
      (Some (js ''/generated/reference_sketch_1700.png''), Some sketchImage)"
    by code_simp
  then have sk: "generatePencilSketchFromImage planFailureWorld (fs idle) =
      ((Some (js ''/generated/reference_sketch_1700.png''), Some sketchImage), idle1)"
    unfolding idle1_def by (simp only: prod_eq_iff fst_conv snd_conv simp_thms)
  have ne: "js ''/generated/reference_sketch_1700.png'' \<noteq> []" by (simp add: js_def)
  have vi: "visionText planFailureWorld = Inr (js ''A cat.'')"
    by (simp add: planFailureWorld_def gapWorld_def)
  have im: "\<exists>r. stepResponse planFailureWorld n c = Inr r" for n c
    by (simp add: planFailureWorld_def gapWorld_def)
  note t = plan_failure_is_recovered [OF pl up di sk ne vi im, of 8]
  from t obtain sk narrated
    where r: "fst (generateTutorial planFailureWorld idle upload) = Json200 sk narrated"
      and d: "map description narrated =
        map (\<lambda>i. js ''Work on part '' @ dec i @ js '' of your drawing.'')
          [1..<determineOptimalSteps (stepsText planFailureWorld) + 1]" by blast
  from t have p: "generateTutorialPlan (planText planFailureWorld) 8 =
     map (\<lambda>i. js ''Work on part '' @ dec i @ js '' of your drawing.'') [1..<8 + 1]" by blast
  from r d have "fst (generateTutorial planFailureWorld idle upload) =
     Json200 (sketchOf (fst (generateTutorial planFailureWorld idle upload)))
       (stepsOf (fst (generateTutorial planFailureWorld idle upload)))"
    "map description (stepsOf (fst (generateTutorial planFailureWorld idle upload))) =
     map (\<lambda>i. js ''Work on part '' @ dec i @ js '' of your drawing.'') [1..<8 + 1]"
    unfolding n by simp_all
  with pl p show ?thesis by blast
qed

section \<open>The artifact store and its directory\<close>

text \<open>
  Claim C7, as the specification states it, fails for the server's store operation:
  \<open>saveGeneratedImage\<close> writes without looking at the directory, so on a disk without
  the directory \<open>generated\<close> it throws, and a request on such a disk ends with status 500
  for want of a reference sketch.
\<close>

theorem store_missing_directory_counterexample:
  "js ''generated'' \<notin> dirs emptyDisk \<and>
   saveGeneratedImage decodeBase64 emptyDisk (js ''c3RlcDA1'') (js ''image/jpeg'')
     (js ''step_1_1701'') = Inl ENOENT \<and>
   fst (generateTutorial gapWorld \<lparr>fs = emptyDisk, sent = []\<rparr> upload) = Json500 NoReferenceSketch"
proof -
  have a: "js ''generated'' \<notin> dirs emptyDisk" by (simp add: emptyDisk_def)
  have n: "0x2F \<notin> set (js ''step_1_1701'')" by (simp add: js_def)
  have b: "saveGeneratedImage decodeBase64 emptyDisk (js ''c3RlcDA1'') (js ''image/jpeg'')
     (js ''step_1_1701'') = Inl ENOENT"
    by (rule saveGeneratedImage_ENOENT [OF n]) (simp_all add: emptyDisk_def existsSync_def)
  have c: "fst (generateTutorial gapWorld \<lparr>fs = emptyDisk, sent = []\<rparr> upload) =
      Json500 NoReferenceSketch" by code_simp
  from a b c show ?thesis by simp
qed

text \<open>
  Claim C7, amended. The server's store operation does not ensure that its directory
  exists: it makes one write and never creates a directory. For a file name without a
  slash, as the names the server passes are, a call throws when the directory
  \<open>generated\<close> does not exist (\<open>ENOENT\<close> when nothing of that name exists and nothing
  else is wrong with the path); a call that succeeds found the directory, left the set
  of directories as it was and stored the decoded bytes; and a call succeeds when the
  directory exists, the path is free to be written and the bytes fit. The directory is
  created when the server starts, if nothing of that name exists, and starting again
  changes nothing. Only the store operation of the stand-alone module creates its
  directory \<open>generated_images\<close> before it writes, and so succeeds where nothing of that
  name exists, when creating it and writing the file meet no other error.
\<close>

theorem store_needs_directory:
  assumes "0x2F \<notin> set filename"
  shows "(js ''generated'' \<notin> dirs f \<longrightarrow>
            (\<exists>e. saveGeneratedImage decode f imageData m filename = Inl e)) \<and>
         (\<not> existsSync f (js ''generated'') \<and>
          fault f (path_join (js ''generated'') (filename @ extensionOf m)) = None \<longrightarrow>
            saveGeneratedImage decode f imageData m filename = Inl ENOENT) \<and>
         (\<forall>u f'. saveGeneratedImage decode f imageData m filename = Inr (u, f') \<longrightarrow>
            dirs f' = dirs f \<and> js ''generated'' \<in> dirs f \<and>
            u = js ''/generated/'' @ filename @ extensionOf m \<and>
            files f' (path_join (js ''generated'') (filename @ extensionOf m)) =
              Some (decode imageData)) \<and>
         (js ''generated'' \<in> dirs f \<and>
          path_join (js ''generated'') (filename @ extensionOf m) \<notin> dirs f \<and>
          fault f (path_join (js ''generated'') (filename @ extensionOf m)) = None \<and>
          length (decode imageData) \<le> free f \<longrightarrow>
            (\<exists>f'. saveGeneratedImage decode f imageData m filename =
                    Inr (js ''/generated/'' @ filename @ extensionOf m, f'))) \<and>
         (\<forall>f'. startup f = Inr f' \<longrightarrow>
            existsSync f' (js ''generated'') \<and>
            (\<not> existsSync f (js ''generated'') \<longrightarrow> js ''generated'' \<in> dirs f') \<and>
            startup f' = Inr f') \<and>
         (fault f (js ''uploads'') = None \<and> fault f (js ''generated'') = None \<longrightarrow>
            (\<exists>f'. startup f = Inr f')) \<and>
         (\<not> existsSync f (js ''generated_images'') \<and>
          fault f (js ''generated_images'') = None \<and>
          path_join (js ''generated_images'') (filename @ extensionOf m) \<notin> dirs f \<and>
          fault f (path_join (js ''generated_images'') (filename @ extensionOf m)) = None \<and>
          length (decode imageData) \<le> free f \<longrightarrow>
            (\<exists>f'. saveGeneratedImage_demo decode f imageData m filename =
                    Inr (path_join (js ''generated_images'') (filename @ extensionOf m), f') \<and>
                  js ''generated_images'' \<in> dirs f' \<and>
                  files f' (path_join (js ''generated_images'') (filename @ extensionOf m)) =
                    Some (decode imageData)))"
proof (intro conjI impI allI)
  show "\<exists>e. saveGeneratedImage decode f imageData m filename = Inl e"
    if "js ''generated'' \<notin> dirs f"
    using assms that by (rule saveGeneratedImage_throws)
  show "saveGeneratedImage decode f imageData m filename = Inl ENOENT"
    if "\<not> existsSync f (js ''generated'') \<and>
        fault f (path_join (js ''generated'') (filename @ extensionOf m)) = None"
    using that by (intro saveGeneratedImage_ENOENT assms) simp_all
  show "dirs f' = dirs f"
    if "saveGeneratedImage decode f imageData m filename = Inr (u, f')" for u f'
    using saveGeneratedImage_stored [OF assms that] by simp
  show "js ''generated'' \<in> dirs f"
    if "saveGeneratedImage decode f imageData m filename = Inr (u, f')" for u f'
    using saveGeneratedImage_stored [OF assms that] by simp
  show "u = js ''/generated/'' @ filename @ extensionOf m"
    if "saveGeneratedImage decode f imageData m filename = Inr (u, f')" for u f'
    using saveGeneratedImage_stored [OF assms that] by simp
  show "files f' (path_join (js ''generated'') (filename @ extensionOf m)) =
      Some (decode imageData)"
    if "saveGeneratedImage decode f imageData m filename = Inr (u, f')" for u f'
    using saveGeneratedImage_stored [OF assms that] by simp
  show "\<exists>f'. saveGeneratedImage decode f imageData m filename =
      Inr (js ''/generated/'' @ filename @ extensionOf m, f')"
    if "js ''generated'' \<in> dirs f \<and>
        path_join (js ''generated'') (filename @ extensionOf m) \<notin> dirs f \<and>
        fault f (path_join (js ''generated'') (filename @ extensionOf m)) = None \<and>
        length (decode imageData) \<le> free f"
    using that by (intro saveGeneratedImage_succeeds assms) simp_all
  show "existsSync f' (js ''generated'')" if "startup f = Inr f'" for f'
    using startup_result [OF that] by simp
  show "js ''generated'' \<in> dirs f'"
    if "startup f = Inr f'" "\<not> existsSync f (js ''generated'')" for f'
    using startup_result [OF that(1)] that(2) by simp
  show "startup f' = Inr f'" if "startup f = Inr f'" for f'
    using startup_result [OF that] by simp
  show "\<exists>f'. startup f = Inr f'"
    if "fault f (js ''uploads'') = None \<and> fault f (js ''generated'') = None"
    using that by (intro startup_ok) simp_all
  show "\<exists>f'. saveGeneratedImage_demo decode f imageData m filename =
                    Inr (path_join (js ''generated_images'') (filename @ extensionOf m), f') \<and>
                  js ''generated_images'' \<in> dirs f' \<and>
                  files f' (path_join (js ''generated_images'') (filename @ extensionOf m)) =
                    Some (decode imageData)"
    if "\<not> existsSync f (js ''generated_images'') \<and>
          fault f (js ''generated_images'') = None \<and>
          path_join (js ''generated_images'') (filename @ extensionOf m) \<notin> dirs f \<and>
          fault f (path_join (js ''generated_images'') (filename @ extensionOf m)) = None \<and>
          length (decode imageData) \<le> free f"
    using that by (intro saveGeneratedImage_demo_creates assms) simp_all
qed

theorem store_needs_directory_witness:
  "0x2F \<notin> set (js ''step_1_1701'') \<and>
   js ''generated'' \<notin> dirs emptyDisk \<and>
   saveGeneratedImage decodeBase64 emptyDisk (js ''c3RlcDA1'') (js ''image/jpeg'')
     (js ''step_1_1701'') = Inl ENOENT \<and>
   startup emptyDisk = Inr startedDisk \<and>
   js ''generated'' \<in> dirs startedDisk \<and>
   startup startedDisk = Inr startedDisk \<and>
   isl (saveGeneratedImage decodeBase64 startedDisk (js ''c3RlcDA1'') (js ''image/jpeg'')
          (js ''step_1_1701'')) = False \<and>
   isl (saveGeneratedImage_demo decodeBase64 emptyDisk (js ''c3RlcDA1'') (js ''image/jpeg'')
          (js ''step_1_1701'')) = False"
proof -
  let ?d = "js ''c3RlcDA1''" and ?m = "js ''image/jpeg''" and ?n = "js ''step_1_1701''"
  have n: "0x2F \<notin> set ?n" by (simp add: js_def)
  note t1 = store_needs_directory [OF n, of emptyDisk decodeBase64 ?d ?m]
  note t2 = store_needs_directory [OF n, of startedDisk decodeBase64 ?d ?m]
  have a: "js ''generated'' \<notin> dirs emptyDisk" by (simp add: emptyDisk_def)
  have b: "\<not> existsSync emptyDisk (js ''generated'')"
    "\<not> existsSync emptyDisk (js ''generated_images'')"
    by (simp_all add: emptyDisk_def existsSync_def)
  have c: "fault emptyDisk p = None" "fault startedDisk p = None" for p
    by (simp_all add: emptyDisk_def startedDisk_def)
  have e: "p \<notin> dirs emptyDisk" for p by (simp add: emptyDisk_def)
  have "length (decodeBase64 ?d) = 6" by code_simp
  then have l: "length (decodeBase64 ?d) \<le> free emptyDisk"
    "length (decodeBase64 ?d) \<le> free startedDisk"
    by (simp_all add: emptyDisk_def startedDisk_def)
  have s: "startup emptyDisk = Inr startedDisk"
    by (simp add: startup_def ensureDir_def mkdirSync_def existsSync_def emptyDisk_def
        startedDisk_def js_def)
  from t1 b(1) c(1) have r1: "saveGeneratedImage decodeBase64 emptyDisk ?d ?m ?n = Inl ENOENT"
    by blast
  from t1 s b(1) have g: "js ''generated'' \<in> dirs startedDisk"
    and i: "startup startedDisk = Inr startedDisk" by blast+
  have "path_join (js ''generated'') (?n @ extensionOf ?m) \<notin> dirs startedDisk"
    by (simp add: startedDisk_def emptyDisk_def path_join_def js_def)
  with t2 g c(2) l(2) have "\<exists>f'. saveGeneratedImage decodeBase64 startedDisk ?d ?m ?n =
      Inr (js ''/generated/'' @ ?n @ extensionOf ?m, f')" by blast
  then have r2: "isl (saveGeneratedImage decodeBase64 startedDisk ?d ?m ?n) = False" by auto
  from t1 b(2) c(1) e l(1) have "\<exists>f'. saveGeneratedImage_demo decodeBase64 emptyDisk ?d ?m ?n =
      Inr (path_join (js ''generated_images'') (?n @ extensionOf ?m), f') \<and>
      js ''generated_images'' \<in> dirs f' \<and>
      files f' (path_join (js ''generated_images'') (?n @ extensionOf ?m)) =
        Some (decodeBase64 ?d)" by blast
  then have r3: "isl (saveGeneratedImage_demo decodeBase64 emptyDisk ?d ?m ?n) = False" by auto
  from n a r1 s g i r2 r3 show ?thesis by blast
qed

end
